theory Spec2Isabelle
  imports Complex_Main
begin

section \<open>Values shared by the services\<close>

text \<open>
  Times and durations are integers counting nanoseconds; a \<open>time.Time\<close> is counted from
  Go's zero time, so that \<open>0\<close> is the zero value the ORM tests for.
\<close>

type_synonym time = int

definition second :: time where
  "second = 1000000000"

definition minute :: time where
  "minute = 60 * second"

definition hour :: time where
  "hour = 60 * minute"

text \<open>
  A decoded JSON object (\<open>map[string]interface{}\<close>) is an association list read with
  \<open>map_of\<close>. Only the members the services look at are told apart: numbers
  (\<open>float64\<close> after decoding, taken as reals), strings, and everything else.
\<close>

datatype jval = JNum real | JStr string | JOther

type_synonym doc = "(string \<times> jval) list"

text \<open>
  A byte string as the services see it: \<open>Obj d\<close> is a text that \<open>json.Unmarshal\<close>
  decodes into the object \<open>d\<close> (what \<open>json.Marshal\<close> gives for a decoded object; the
  text \<open>null\<close>, which decodes into the nil map, is not told apart from the empty object),
  \<open>Raw s\<close> is any other text, such as the lock marker \<open>"1"\<close> or the empty string, and
  does not decode into an object.
\<close>

datatype bytes = Raw string | Obj doc

datatype err =
    ErrUpstream string
  | ErrCache
  | ErrDB
  | ErrRecordNotFound
  | ErrDuplicateKey
  | ErrUnmarshal
  | Wrap string err

text \<open>
  \<open>json.Marshal\<close> of a decoded object. It has no failing case on values that came out
  of a JSON text; the branches the services have for its error are kept.
\<close>

definition json_Marshal :: "doc \<Rightarrow> err + bytes" where
  "json_Marshal d = Inr (Obj d)"

record ISSLog =
  ID :: nat
  FetchedAt :: time
  SourceURL :: string
  Payload :: bytes
  CreatedAt :: time
  UpdatedAt :: time

record ISSTrend =
  Movement :: bool
  DeltaKm :: real
  DtSec :: real
  VelocityKmh :: "real option"
  FromTime :: "time option"
  ToTime :: "time option"
  FromLat :: "real option"
  FromLon :: "real option"
  ToLat :: "real option"
  ToLon :: "real option"

record OSDRItem =
  item_ID :: nat
  DatasetID :: string
  Title :: string
  Status :: string
  item_UpdatedAt :: "time option"
  InsertedAt :: time
  RawJSON :: bytes
  item_CreatedAt :: time

text \<open>
  What a cache entry holds: a text written by \<open>Set\<close>, or the JSON encoding of one of the
  typed values written by \<open>SetJSON\<close>. An entry decodes into the value it was encoded
  from.
\<close>

datatype blob =
    B bytes
  | EncTrend ISSTrend
  | EncLogs "ISSLog list"
  | EncItems "OSDRItem list"
  | EncDocs "doc list"

datatype upstream_call =
    CallISSPosition
  | CallOSDR
  | CallAPOD string
  | CallNEOFeed int
  | CallDONKI string int

section \<open>Library functions taken as parameters\<close>

text \<open>
  What the services call in the standard library and is not spelled out here:
  \<open>fmt.Sscanf(v, "%f", &f)\<close> and \<open>time.Parse(time.RFC3339, v)\<close>, each \<open>None\<close> where the
  library reports an error; the conversion \<open>int64(v)\<close> of a \<open>float64\<close> outside the range
  of \<open>int64\<close>, which the language leaves to the implementation; and what
  \<open>json.Unmarshal\<close> makes of a cache entry that was not written as a value of the type it
  is decoded into (\<open>None\<close> where it reports an error).
\<close>

record lib =
  Sscanf_f :: "string \<Rightarrow> real option"
  ParseRFC3339 :: "string \<Rightarrow> time option"
  Int64_out_of_range :: "real \<Rightarrow> int"
  Unmarshal_trend :: "blob \<Rightarrow> ISSTrend option"
  Unmarshal_logs :: "blob \<Rightarrow> ISSLog list option"
  Unmarshal_items :: "blob \<Rightarrow> OSDRItem list option"
  Unmarshal_doc :: "blob \<Rightarrow> doc option"
  Unmarshal_docs :: "blob \<Rightarrow> doc list option"

section \<open>Great-circle distance\<close>

text \<open>
  The formula of \<open>haversineDistance\<close>, computed exactly: \<open>float64\<close> is taken as the
  reals, so rounding, infinities and NaN are outside this model, and it says nothing of
  the points where rounding decides the result (two antipodal points, where the term
  \<open>a\<close> is 1 and its rounded value can exceed 1). \<open>Atan2\<close> is \<open>math.Atan2\<close> on finite
  arguments.
\<close>

definition Atan2 :: "real \<Rightarrow> real \<Rightarrow> real" where
  "Atan2 y x =
     (if 0 < x then arctan (y / x)
      else if x < 0 then (if 0 \<le> y then arctan (y / x) + pi else arctan (y / x) - pi)
      else if 0 < y then pi / 2
      else if y < 0 then - (pi / 2)
      else 0)"

definition haversineDistance :: "real \<Rightarrow> real \<Rightarrow> real \<Rightarrow> real \<Rightarrow> real" where
  "haversineDistance lat1 lon1 lat2 lon2 =
     (let R = 6371;
          fi1 = lat1 * pi / 180;
          fi2 = lat2 * pi / 180;
          deltaFi = (lat2 - lat1) * pi / 180;
          deltaXi = (lon2 - lon1) * pi / 180;
          a = sin (deltaFi / 2) * sin (deltaFi / 2)
                + cos fi1 * cos fi2 * sin (deltaXi / 2) * sin (deltaXi / 2);
          c = 2 * Atan2 (sqrt a) (sqrt (1 - a))
      in R * c)"

text \<open>The haversine term \<open>a\<close> of the distance, named for the proofs.\<close>

definition hav_a :: "real \<Rightarrow> real \<Rightarrow> real \<Rightarrow> real \<Rightarrow> real" where
  "hav_a lat1 lon1 lat2 lon2 =
     sin ((lat2 - lat1) * pi / 180 / 2) * sin ((lat2 - lat1) * pi / 180 / 2)
       + cos (lat1 * pi / 180) * cos (lat2 * pi / 180)
           * sin ((lon2 - lon1) * pi / 180 / 2) * sin ((lon2 - lon1) * pi / 180 / 2)"

section \<open>The world outside the services\<close>

text \<open>
  The collaborators of the services, as one state: the clock, the key/value store with
  the expiry of every entry, the two tables, and the log of calls made to the upstream
  sources. The outcome of the \<open>n\<close>-th operation on the key/value store and on the database
  (it fails or not) and the answer of the upstream source to the \<open>n\<close>-th call are given by
  the world, so that every pattern of failures is a world.
\<close>

record world =
  clock :: time
  kv :: "string \<Rightarrow> (blob \<times> time option) option"
  cache_ops :: nat
  cache_fail :: "nat \<Rightarrow> bool"
  iss_logs :: "ISSLog list"
  osdr_items :: "OSDRItem list"
  db_ops :: nat
  db_fail :: "nat \<Rightarrow> bool"
  calls :: "upstream_call list"
  api_doc :: "nat \<Rightarrow> err + doc"
  api_docs :: "nat \<Rightarrow> err + doc list"

definition advance :: "time \<Rightarrow> world \<Rightarrow> world" where
  "advance d w = w\<lparr>clock := clock w + d\<rparr>"

subsection \<open>Key/value store\<close>

definition live :: "world \<Rightarrow> string \<Rightarrow> blob option" where
  "live w key =
     (case kv w key of
        None \<Rightarrow> None
      | Some (v, expiry) \<Rightarrow>
          (case expiry of
             None \<Rightarrow> Some v
           | Some t \<Rightarrow> if clock w < t then Some v else None))"

definition redis_get :: "world \<Rightarrow> string \<Rightarrow> (err + blob option) \<times> world" where
  "redis_get w key =
     (let w' = w\<lparr>cache_ops := Suc (cache_ops w)\<rparr>
      in if cache_fail w (cache_ops w) then (Inl ErrCache, w') else (Inr (live w key), w'))"

definition redis_set :: "world \<Rightarrow> string \<Rightarrow> blob \<Rightarrow> time \<Rightarrow> err option \<times> world" where
  "redis_set w key v ttl =
     (let w' = w\<lparr>cache_ops := Suc (cache_ops w)\<rparr>
      in if cache_fail w (cache_ops w) then (Some ErrCache, w')
         else (None, w'\<lparr>kv := (kv w)(key \<mapsto> (v, if 0 < ttl then Some (clock w + ttl) else None))\<rparr>))"

text \<open>\<open>cacheRepository.Get\<close>: a missing key is the empty string and no error.\<close>

definition Get :: "world \<Rightarrow> string \<Rightarrow> (err + blob) \<times> world" where
  "Get w key =
     (case redis_get w key of
        (Inl e, w') \<Rightarrow> (Inl e, w')
      | (Inr None, w') \<Rightarrow> (Inr (B (Raw [])), w')
      | (Inr (Some val), w') \<Rightarrow> (Inr val, w'))"

definition Set_cache :: "world \<Rightarrow> string \<Rightarrow> bytes \<Rightarrow> time \<Rightarrow> err option \<times> world" where
  "Set_cache w key v expiration = redis_set w key (B v) expiration"

text \<open>
  \<open>cacheRepository.GetJSON\<close>: a missing key is no error and leaves the destination as it
  was (\<open>Inr None\<close>); otherwise the entry is decoded into the destination by \<open>dec\<close>.
\<close>

definition GetJSON :: "world \<Rightarrow> string \<Rightarrow> (blob \<Rightarrow> 'a option) \<Rightarrow> (err + 'a option) \<times> world" where
  "GetJSON w key dec =
     (case redis_get w key of
        (Inl e, w') \<Rightarrow> (Inl e, w')
      | (Inr None, w') \<Rightarrow> (Inr None, w')
      | (Inr (Some val), w') \<Rightarrow>
          (case dec val of
             None \<Rightarrow> (Inl ErrUnmarshal, w')
           | Some x \<Rightarrow> (Inr (Some x), w')))"

definition SetJSON :: "world \<Rightarrow> string \<Rightarrow> blob \<Rightarrow> time \<Rightarrow> err option \<times> world" where
  "SetJSON w key v expiration = redis_set w key v expiration"

text \<open>
  \<open>json.Unmarshal\<close> of an entry into each type of destination: the value the entry was
  encoded from, and for any other entry what the library makes of it.
\<close>

definition dec_trend :: "lib \<Rightarrow> blob \<Rightarrow> ISSTrend option" where
  "dec_trend lb v = (case v of EncTrend t \<Rightarrow> Some t | _ \<Rightarrow> Unmarshal_trend lb v)"

definition dec_logs :: "lib \<Rightarrow> blob \<Rightarrow> ISSLog list option" where
  "dec_logs lb v = (case v of EncLogs ls \<Rightarrow> Some ls | _ \<Rightarrow> Unmarshal_logs lb v)"

definition dec_items :: "lib \<Rightarrow> blob \<Rightarrow> OSDRItem list option" where
  "dec_items lb v = (case v of EncItems xs \<Rightarrow> Some xs | _ \<Rightarrow> Unmarshal_items lb v)"

definition dec_doc :: "lib \<Rightarrow> blob \<Rightarrow> doc option" where
  "dec_doc lb v = (case v of B (Obj d) \<Rightarrow> Some d | _ \<Rightarrow> Unmarshal_doc lb v)"

definition dec_docs :: "lib \<Rightarrow> blob \<Rightarrow> doc list option" where
  "dec_docs lb v = (case v of EncDocs ds \<Rightarrow> Some ds | _ \<Rightarrow> Unmarshal_docs lb v)"

subsection \<open>Upstream sources\<close>

definition upstream_doc :: "world \<Rightarrow> upstream_call \<Rightarrow> (err + doc) \<times> world" where
  "upstream_doc w c = (api_doc w (length (calls w)), w\<lparr>calls := calls w @ [c]\<rparr>)"

definition upstream_docs :: "world \<Rightarrow> upstream_call \<Rightarrow> (err + doc list) \<times> world" where
  "upstream_docs w c = (api_docs w (length (calls w)), w\<lparr>calls := calls w @ [c]\<rparr>)"

definition GetCurrentPosition :: "world \<Rightarrow> (err + doc) \<times> world" where
  "GetCurrentPosition w = upstream_doc w CallISSPosition"

definition FetchOSDR :: "world \<Rightarrow> (err + doc list) \<times> world" where
  "FetchOSDR w = upstream_docs w CallOSDR"

definition FetchAPOD :: "world \<Rightarrow> string \<Rightarrow> (err + doc) \<times> world" where
  "FetchAPOD w date = upstream_doc w (CallAPOD date)"

definition FetchNEOFeed :: "world \<Rightarrow> int \<Rightarrow> (err + doc) \<times> world" where
  "FetchNEOFeed w days = upstream_doc w (CallNEOFeed days)"

definition FetchDONKI :: "world \<Rightarrow> string \<Rightarrow> int \<Rightarrow> (err + doc list) \<times> world" where
  "FetchDONKI w eventType days = upstream_docs w (CallDONKI eventType days)"

subsection \<open>ISS position log table\<close>

text \<open>
  The tables follow the declarations of the models and the conventions of the ORM: a zero
  primary key gets a fresh one; a zero \<open>autoCreateTime\<close>, \<open>autoUpdateTime\<close> or
  \<open>default:now()\<close> column gets the clock on insert, and so does a time column named
  \<open>UpdatedAt\<close> that is nil, which the ORM tracks by its name; a primary key or a unique
  column already in the table is refused.
\<close>

definition fresh_id :: "nat list \<Rightarrow> nat" where
  "fresh_id ids = Suc (fold max ids 0)"

definition stamp :: "world \<Rightarrow> time \<Rightarrow> time" where
  "stamp w t = (if t = 0 then clock w else t)"

definition iss_Create :: "world \<Rightarrow> ISSLog \<Rightarrow> err option \<times> world" where
  "iss_Create w l =
     (let w' = w\<lparr>db_ops := Suc (db_ops w)\<rparr>
      in if db_fail w (db_ops w) then (Some ErrDB, w')
         else if ID l \<noteq> 0 \<and> ID l \<in> set (map ID (iss_logs w)) then (Some ErrDuplicateKey, w')
         else (None, w'\<lparr>iss_logs := iss_logs w @
                 [l\<lparr>ID := (if ID l = 0 then fresh_id (map ID (iss_logs w)) else ID l),
                    FetchedAt := stamp w (FetchedAt l),
                    CreatedAt := stamp w (CreatedAt l),
                    UpdatedAt := stamp w (UpdatedAt l)\<rparr>]\<rparr>))"

definition by_fetched_desc :: "ISSLog list \<Rightarrow> ISSLog list" where
  "by_fetched_desc rows = sort_key (\<lambda>l. - FetchedAt l) rows"

definition GetLast :: "world \<Rightarrow> (err + ISSLog) \<times> world" where
  "GetLast w =
     (let w' = w\<lparr>db_ops := Suc (db_ops w)\<rparr>
      in if db_fail w (db_ops w) then (Inl ErrDB, w')
         else (case by_fetched_desc (iss_logs w) of
                 [] \<Rightarrow> (Inl ErrRecordNotFound, w')
               | l # _ \<Rightarrow> (Inr l, w')))"

definition GetLastN :: "world \<Rightarrow> nat \<Rightarrow> (err + ISSLog list) \<times> world" where
  "GetLastN w n =
     (let w' = w\<lparr>db_ops := Suc (db_ops w)\<rparr>
      in if db_fail w (db_ops w) then (Inl ErrDB, w')
         else (Inr (take n (by_fetched_desc (iss_logs w))), w'))"

definition GetSince :: "world \<Rightarrow> time \<Rightarrow> (err + ISSLog list) \<times> world" where
  "GetSince w since =
     (let w' = w\<lparr>db_ops := Suc (db_ops w)\<rparr>
      in if db_fail w (db_ops w) then (Inl ErrDB, w')
         else (Inr (by_fetched_desc (filter (\<lambda>l. since \<le> FetchedAt l) (iss_logs w))), w'))"

section \<open>ISS service\<close>

text \<open>
  \<open>fmt.Sprintf("%d", n)\<close>.
\<close>

fun decimal :: "nat \<Rightarrow> string" where
  "decimal n =
     (if n < 10 then [char_of (48 + n)]
      else decimal (n div 10) @ [char_of (48 + n mod 10)])"

declare decimal.simps [simp del]

definition itoa :: "int \<Rightarrow> string" where
  "itoa i = (if i < 0 then CHR ''-'' # decimal (nat (- i)) else decimal (nat i))"

definition iss_source_url :: string where
  "iss_source_url = ''https://api.wheretheiss.at/v1/satellites/25544''"

text \<open>
  \<open>FetchAndStoreISSData\<close>; \<open>interval\<close> is the service's configured refetch interval.
\<close>

definition FetchAndStoreISSData :: "time \<Rightarrow> world \<Rightarrow> err option \<times> world" where
  "FetchAndStoreISSData interval w =
     (let cacheKey = ''iss:last_fetch'' in
      case Get w cacheKey of (cached, w1) \<Rightarrow>
        if (case cached of Inr c \<Rightarrow> c \<noteq> B (Raw []) | Inl _ \<Rightarrow> False) then (None, w1)
        else
          (case GetCurrentPosition w1 of
             (Inl e, w2) \<Rightarrow> (Some (Wrap ''failed to fetch ISS data'' e), w2)
           | (Inr data, w2) \<Rightarrow>
               (case json_Marshal data of
                  Inl e \<Rightarrow> (Some (Wrap ''failed to marshal ISS data'' e), w2)
                | Inr payload \<Rightarrow>
                    (let issLog = \<lparr>ID = 0, FetchedAt = clock w2, SourceURL = iss_source_url,
                                   Payload = payload, CreatedAt = 0, UpdatedAt = 0\<rparr>
                     in case iss_Create w2 issLog of
                          (Some e, w3) \<Rightarrow> (Some (Wrap ''failed to save ISS data to DB'' e), w3)
                        | (None, w3) \<Rightarrow>
                            (case Set_cache w3 ''iss:last_position'' payload (2 * minute) of
                               (_, w4) \<Rightarrow>
                                 (case Set_cache w4 cacheKey (Raw ''1'') interval of
                                    (_, w5) \<Rightarrow> (None, w5)))))))"

text \<open>
  \<open>GetLastPosition\<close>. The cached text that decodes into an object \<open>d\<close> is answered as
  the payload \<open>Obj d\<close>.
\<close>

definition GetLastPosition :: "lib \<Rightarrow> world \<Rightarrow> (err + ISSLog) \<times> world" where
  "GetLastPosition lb w =
     (let cacheKey = ''iss:last_position'' in
      case Get w cacheKey of (cached, w1) \<Rightarrow>
        (case (case cached of
                 Inr c \<Rightarrow> (if c \<noteq> B (Raw []) then dec_doc lb c else None)
               | Inl _ \<Rightarrow> None) of
           Some d \<Rightarrow>
             (Inr \<lparr>ID = 0, FetchedAt = clock w1, SourceURL = iss_source_url,
                   Payload = Obj d, CreatedAt = 0, UpdatedAt = 0\<rparr>, w1)
         | None \<Rightarrow>
             (case GetLast w1 of
                (Inl e, w2) \<Rightarrow> (Inl (Wrap ''failed to get last ISS position'' e), w2)
              | (Inr issLog, w2) \<Rightarrow>
                  (case Set_cache w2 cacheKey (Payload issLog) (2 * minute) of (_, w3) \<Rightarrow>
                     (Inr issLog, w3)))))"

definition extractFloat :: "lib \<Rightarrow> doc \<Rightarrow> string \<Rightarrow> real" where
  "extractFloat lb data key =
     (case map_of data key of
        Some (JNum v) \<Rightarrow> v
      | Some (JStr v) \<Rightarrow> (case Sscanf_f lb v of Some f \<Rightarrow> f | None \<Rightarrow> 0)
      | _ \<Rightarrow> 0)"

definition zero_trend :: ISSTrend where
  "zero_trend =
     \<lparr>Movement = False, DeltaKm = 0, DtSec = 0, VelocityKmh = None,
      FromTime = None, ToTime = None,
      FromLat = None, FromLon = None, ToLat = None, ToLon = None\<rparr>"

definition calculateTrend :: "lib \<Rightarrow> ISSLog \<Rightarrow> ISSLog \<Rightarrow> ISSTrend" where
  "calculateTrend lb current previous =
     (case Payload current of
        Raw _ \<Rightarrow> zero_trend
      | Obj currentData \<Rightarrow>
          (case Payload previous of
             Raw _ \<Rightarrow> zero_trend
           | Obj previousData \<Rightarrow>
               (let lat1 = extractFloat lb previousData ''latitude'';
                    lon1 = extractFloat lb previousData ''longitude'';
                    lat2 = extractFloat lb currentData ''latitude'';
                    lon2 = extractFloat lb currentData ''longitude'';
                    velocity = extractFloat lb currentData ''velocity'';
                    deltaKm = haversineDistance lat1 lon1 lat2 lon2;
                    dtSec = real_of_int (FetchedAt current - FetchedAt previous) / 1000000000;
                    movement = (deltaKm > 0.1);
                    velocityKmh = (if velocity > 0 then Some (velocity * 3.6) else None)
                in \<lparr>Movement = movement, DeltaKm = deltaKm, DtSec = dtSec,
                     VelocityKmh = velocityKmh,
                     FromTime = Some (FetchedAt previous), ToTime = Some (FetchedAt current),
                     FromLat = Some lat1, FromLon = Some lon1,
                     ToLat = Some lat2, ToLon = Some lon2\<rparr>)))"

definition GetTrend :: "lib \<Rightarrow> world \<Rightarrow> int \<Rightarrow> (err + ISSTrend) \<times> world" where
  "GetTrend lb w limit0 =
     (let limit = (if limit0 \<le> 0 then 240 else limit0);
          cacheKey = ''iss:trend:'' @ itoa limit
      in case GetJSON w cacheKey (dec_trend lb) of
           (Inr got, w1) \<Rightarrow> (Inr (case got of None \<Rightarrow> zero_trend | Some trend \<Rightarrow> trend), w1)
         | (Inl _, w1) \<Rightarrow>
             (case GetLastN w1 2 of
                (Inl e, w2) \<Rightarrow> (Inl (Wrap ''failed to get ISS positions'' e), w2)
              | (Inr positions, w2) \<Rightarrow>
                  (case positions of
                     current # previous # _ \<Rightarrow>
                       (let calculatedTrend = calculateTrend lb current previous
                        in case SetJSON w2 cacheKey (EncTrend calculatedTrend) (30 * second) of
                             (_, w3) \<Rightarrow> (Inr calculatedTrend, w3))
                   | _ \<Rightarrow>
                       (Inr \<lparr>Movement = False, DeltaKm = 0, DtSec = 0, VelocityKmh = None,
                             FromTime = None, ToTime = None,
                             FromLat = None, FromLon = None, ToLat = None, ToLon = None\<rparr>,
                        w2))))"

definition GetPositionsHistory :: "lib \<Rightarrow> world \<Rightarrow> int \<Rightarrow> (err + ISSLog list) \<times> world" where
  "GetPositionsHistory lb w hours0 =
     (let hours = (if hours0 \<le> 0 then 24 else hours0);
          cacheKey = ''iss:history:'' @ itoa hours @ ''h''
      in case GetJSON w cacheKey (dec_logs lb) of (got, w1) \<Rightarrow>
           (case (case got of Inr (Some ps) \<Rightarrow> (if ps \<noteq> [] then Some ps else None) | _ \<Rightarrow> None) of
              Some positions \<Rightarrow> (Inr positions, w1)
            | None \<Rightarrow>
                (let fromTime = clock w1 - hours * hour
                 in case GetSince w1 fromTime of
                      (Inl e, w2) \<Rightarrow> (Inl (Wrap ''failed to get ISS history'' e), w2)
                    | (Inr positions, w2) \<Rightarrow>
                        (if positions \<noteq> []
                         then (case SetJSON w2 cacheKey (EncLogs positions) (5 * minute) of
                                 (_, w3) \<Rightarrow> (Inr positions, w3))
                         else (Inr positions, w2)))))"

text \<open>
  The handler \<open>ForceFetchISS\<close>, with the answer it writes: the status and the text, and
  the error whose message goes into the answer.
\<close>

datatype response = JSON_error nat string err | JSON_ok nat string

definition ForceFetchISS :: "time \<Rightarrow> world \<Rightarrow> response \<times> world" where
  "ForceFetchISS interval w =
     (case FetchAndStoreISSData interval w of
        (Some e, w') \<Rightarrow> (JSON_error 500 ''failed to fetch ISS data'' e, w')
      | (None, w') \<Rightarrow> (JSON_ok 200 ''ISS data fetched successfully'', w'))"

section \<open>OSDR repository\<close>

definition osdr_Create :: "world \<Rightarrow> OSDRItem \<Rightarrow> err option \<times> world" where
  "osdr_Create w item =
     (let w' = w\<lparr>db_ops := Suc (db_ops w)\<rparr>
      in if db_fail w (db_ops w) then (Some ErrDB, w')
         else if item_ID item \<noteq> 0 \<and> item_ID item \<in> set (map item_ID (osdr_items w))
           then (Some ErrDuplicateKey, w')
         else if DatasetID item \<in> set (map DatasetID (osdr_items w))
           then (Some ErrDuplicateKey, w')
         else (None, w'\<lparr>osdr_items := osdr_items w @
                 [item\<lparr>item_ID := (if item_ID item = 0
                                      then fresh_id (map item_ID (osdr_items w))
                                      else item_ID item),
                       item_UpdatedAt := (case item_UpdatedAt item of
                                            None \<Rightarrow> Some (clock w)
                                          | Some t \<Rightarrow> Some t),
                       InsertedAt := stamp w (InsertedAt item),
                       item_CreatedAt := stamp w (item_CreatedAt item)\<rparr>]\<rparr>))"

text \<open>
  \<open>Save\<close> writes every column of the record it is given into the row with its primary
  key, but for the column \<open>UpdatedAt\<close>, which the ORM sets to the clock on every update;
  with a zero primary key it inserts.
\<close>

definition osdr_Save :: "world \<Rightarrow> OSDRItem \<Rightarrow> err option \<times> world" where
  "osdr_Save w item =
     (if item_ID item = 0 then osdr_Create w item
      else
        (let w' = w\<lparr>db_ops := Suc (db_ops w)\<rparr>
         in if db_fail w (db_ops w) then (Some ErrDB, w')
            else (None, w'\<lparr>osdr_items :=
                    map (\<lambda>r. if item_ID r = item_ID item
                             then item\<lparr>item_UpdatedAt := Some (clock w)\<rparr>
                             else r) (osdr_items w)\<rparr>)))"

text \<open>
  The body of the transaction of \<open>BulkUpsert\<close>: the loop over the items, working on the
  table of the world it is given.
\<close>

fun upsert_items :: "world \<Rightarrow> OSDRItem list \<Rightarrow> err option \<times> world" where
  "upsert_items w [] = (None, w)"
| "upsert_items w (item # items) =
     (if DatasetID item = [] then upsert_items w items
      else
        (let w1 = w\<lparr>db_ops := Suc (db_ops w)\<rparr>
         in if db_fail w (db_ops w) then (Some ErrDB, w1)
            else
              (case find (\<lambda>r. DatasetID r = DatasetID item) (osdr_items w) of
                 None \<Rightarrow>
                   (case osdr_Create w1 item of
                      (Some e, w2) \<Rightarrow> (Some e, w2)
                    | (None, w2) \<Rightarrow> upsert_items w2 items)
               | Some existing \<Rightarrow>
                   (case osdr_Save w1 (item\<lparr>item_ID := item_ID existing,
                                           item_CreatedAt := item_CreatedAt existing\<rparr>) of
                      (Some e, w2) \<Rightarrow> (Some e, w2)
                    | (None, w2) \<Rightarrow> upsert_items w2 items))))"

text \<open>
  The transaction: it begins, runs the body and commits, each of the two a database
  operation that can fail. An error of the body or of the commit is followed by a
  rollback, one more database operation, whose own error is dropped: the table is left
  as it was.
\<close>

definition BulkUpsert :: "world \<Rightarrow> OSDRItem list \<Rightarrow> err option \<times> world" where
  "BulkUpsert w items =
     (let w0 = w\<lparr>db_ops := Suc (db_ops w)\<rparr>
      in if db_fail w (db_ops w) then (Some ErrDB, w0)
         else
           (case upsert_items w0 items of
              (Some e, w1) \<Rightarrow>
                (Some e, w1\<lparr>db_ops := Suc (db_ops w1), osdr_items := osdr_items w\<rparr>)
            | (None, w1) \<Rightarrow>
                (let w2 = w1\<lparr>db_ops := Suc (db_ops w1)\<rparr>
                 in if db_fail w1 (db_ops w1)
                    then (Some ErrDB, w2\<lparr>db_ops := Suc (db_ops w2), osdr_items := osdr_items w\<rparr>)
                    else (None, w2))))"

text \<open>\<open>ORDER BY updated_at DESC NULLS LAST, created_at DESC\<close>.\<close>

definition osdr_order :: "OSDRItem list \<Rightarrow> OSDRItem list" where
  "osdr_order rows =
     (let by_created = sort_key (\<lambda>r. - item_CreatedAt r) rows
      in sort_key (\<lambda>r. case item_UpdatedAt r of Some t \<Rightarrow> - t | None \<Rightarrow> 0)
           (filter (\<lambda>r. item_UpdatedAt r \<noteq> None) by_created)
         @ filter (\<lambda>r. item_UpdatedAt r = None) by_created)"

definition GetPaginated :: "world \<Rightarrow> int \<Rightarrow> int \<Rightarrow> (err + OSDRItem list) \<times> world" where
  "GetPaginated w page0 limit0 =
     (let page = (if page0 < 1 then 1 else page0);
          limit = (if limit0 < 1 \<or> limit0 > 100 then 20 else limit0);
          offset = (page - 1) * limit;
          w' = w\<lparr>db_ops := Suc (db_ops w)\<rparr>
      in if db_fail w (db_ops w) then (Inl ErrDB, w')
         else (Inr (take (nat limit) (drop (nat offset) (osdr_order (osdr_items w)))), w'))"

section \<open>NASA service\<close>

fun extractString :: "doc \<Rightarrow> string list \<Rightarrow> string" where
  "extractString data [] = []"
| "extractString data (key # keys) =
     (case map_of data key of
        Some (JStr str) \<Rightarrow> if str \<noteq> [] then str else extractString data keys
      | _ \<Rightarrow> extractString data keys)"

text \<open>
  \<open>time.Unix(int64(v), 0)\<close>: the conversion cuts the fraction off, and outside the range
  of \<open>int64\<close> gives what the implementation gives; the seconds since the Unix epoch are
  moved to seconds since the zero time in 64 bits, wrapping around.
\<close>

definition wrap64 :: "int \<Rightarrow> int" where
  "wrap64 i = (i + 2 ^ 63) mod 2 ^ 64 - 2 ^ 63"

definition int64_of_float :: "lib \<Rightarrow> real \<Rightarrow> int" where
  "int64_of_float lb v =
     (let t = (if 0 \<le> v then \<lfloor>v\<rfloor> else \<lceil>v\<rceil>)
      in if - (2 ^ 63) \<le> t \<and> t < 2 ^ 63 then t else Int64_out_of_range lb v)"

definition unix_time :: "lib \<Rightarrow> real \<Rightarrow> time" where
  "unix_time lb v = wrap64 (int64_of_float lb v + 62135596800) * second"

fun extractTime_keys :: "lib \<Rightarrow> doc \<Rightarrow> string list \<Rightarrow> time option" where
  "extractTime_keys lb data [] = None"
| "extractTime_keys lb data (key # keys) =
     (case map_of data key of
        Some (JStr v) \<Rightarrow>
          (case ParseRFC3339 lb v of
             Some t \<Rightarrow> Some t
           | None \<Rightarrow> extractTime_keys lb data keys)
      | Some (JNum v) \<Rightarrow> Some (unix_time lb v)
      | _ \<Rightarrow> extractTime_keys lb data keys)"

definition extractTime :: "lib \<Rightarrow> doc \<Rightarrow> time option" where
  "extractTime lb data =
     extractTime_keys lb data [''updated_at'', ''modified'', ''lastUpdated'', ''timestamp'']"

definition osdr_item_of :: "lib \<Rightarrow> doc \<Rightarrow> OSDRItem" where
  "osdr_item_of lb itemData =
     \<lparr>item_ID = 0,
      DatasetID = extractString itemData [''dataset_id'', ''id'', ''uuid''],
      Title = extractString itemData [''title'', ''name'', ''label''],
      Status = extractString itemData [''status'', ''state'', ''lifecycle''],
      item_UpdatedAt = extractTime lb itemData,
      InsertedAt = 0,
      RawJSON = (case json_Marshal itemData of Inr payload \<Rightarrow> payload | Inl _ \<Rightarrow> Raw []),
      item_CreatedAt = 0\<rparr>"

definition FetchAndStoreOSDR :: "lib \<Rightarrow> world \<Rightarrow> err option \<times> world" where
  "FetchAndStoreOSDR lb w =
     (let cacheKey = ''nasa:osdr:last_fetch'' in
      case Get w cacheKey of (cached, w1) \<Rightarrow>
        if (case cached of Inr c \<Rightarrow> c \<noteq> B (Raw []) | Inl _ \<Rightarrow> False) then (None, w1)
        else
          (case FetchOSDR w1 of
             (Inl e, w2) \<Rightarrow> (Some (Wrap ''failed to fetch OSDR data'' e), w2)
           | (Inr items, w2) \<Rightarrow>
               (let dbItems = map (osdr_item_of lb) items
                in case (if dbItems \<noteq> [] then BulkUpsert w2 dbItems else (None, w2)) of
                     (Some e, w3) \<Rightarrow> (Some (Wrap ''failed to save OSDR data'' e), w3)
                   | (None, w3) \<Rightarrow>
                       (case Set_cache w3 cacheKey (Raw ''1'') (10 * minute) of (_, w4) \<Rightarrow>
                          (None, w4)))))"

definition FetchAndStoreAPOD :: "world \<Rightarrow> err option \<times> world" where
  "FetchAndStoreAPOD w =
     (let cacheKey = ''nasa:apod:today'' in
      case FetchAPOD w [] of
        (Inl e, w1) \<Rightarrow> (Some (Wrap ''failed to fetch APOD'' e), w1)
      | (Inr apod, w1) \<Rightarrow>
          (case SetJSON w1 cacheKey (B (Obj apod)) (24 * hour) of
             (Some e, w2) \<Rightarrow> (Some e, w2)
           | (None, w2) \<Rightarrow> (None, w2)))"

definition FetchAndStoreNEO :: "world \<Rightarrow> err option \<times> world" where
  "FetchAndStoreNEO w =
     (let cacheKey = ''nasa:neo:last_week'' in
      case FetchNEOFeed w 7 of
        (Inl e, w1) \<Rightarrow> (Some (Wrap ''failed to fetch NEO data'' e), w1)
      | (Inr neoData, w1) \<Rightarrow>
          (case SetJSON w1 cacheKey (B (Obj neoData)) (2 * hour) of
             (Some e, w2) \<Rightarrow> (Some e, w2)
           | (None, w2) \<Rightarrow> (None, w2)))"

definition GetOSDRList :: "lib \<Rightarrow> world \<Rightarrow> int \<Rightarrow> int \<Rightarrow> (err + OSDRItem list) \<times> world" where
  "GetOSDRList lb w page0 limit0 =
     (let page = (if page0 < 1 then 1 else page0);
          limit = (if limit0 < 1 \<or> limit0 > 100 then 20 else limit0);
          cacheKey = ''nasa:osdr:list:'' @ itoa page @ '':'' @ itoa limit
      in case GetJSON w cacheKey (dec_items lb) of (got, w1) \<Rightarrow>
           (case (case got of Inr (Some xs) \<Rightarrow> (if xs \<noteq> [] then Some xs else None) | _ \<Rightarrow> None) of
              Some items \<Rightarrow> (Inr items, w1)
            | None \<Rightarrow>
                (case GetPaginated w1 page limit of
                   (Inl e, w2) \<Rightarrow> (Inl (Wrap ''failed to get OSDR list'' e), w2)
                 | (Inr items, w2) \<Rightarrow>
                     (case SetJSON w2 cacheKey (EncItems items) (5 * minute) of (_, w3) \<Rightarrow>
                        (Inr items, w3)))))"

text \<open>
  The two readers below answer a decoded object, or \<open>None\<close> for the \<open>nil\<close> map that is
  left when the key is still missing after the fetch.
\<close>

definition GetLatestAPOD :: "lib \<Rightarrow> world \<Rightarrow> (err + doc option) \<times> world" where
  "GetLatestAPOD lb w =
     (let cacheKey = ''nasa:apod:today'' in
      case GetJSON w cacheKey (dec_doc lb) of (got, w1) \<Rightarrow>
        (case (case got of Inr (Some d) \<Rightarrow> Some d | _ \<Rightarrow> None) of
           Some apodData \<Rightarrow> (Inr (Some apodData), w1)
         | None \<Rightarrow>
             (case FetchAndStoreAPOD w1 of
                (Some e, w2) \<Rightarrow> (Inl e, w2)
              | (None, w2) \<Rightarrow>
                  (case GetJSON w2 cacheKey (dec_doc lb) of
                     (Inl e, w3) \<Rightarrow> (Inl (Wrap ''failed to get APOD data'' e), w3)
                   | (Inr apodData, w3) \<Rightarrow> (Inr apodData, w3)))))"

definition GetLatestNEO :: "lib \<Rightarrow> world \<Rightarrow> int \<Rightarrow> (err + doc option) \<times> world" where
  "GetLatestNEO lb w days0 =
     (let days = (if days0 < 1 \<or> days0 > 30 then 7 else days0);
          cacheKey = ''nasa:neo:'' @ itoa days @ ''d''
      in case GetJSON w cacheKey (dec_doc lb) of (got, w1) \<Rightarrow>
           (case (case got of Inr (Some d) \<Rightarrow> Some d | _ \<Rightarrow> None) of
              Some neoData \<Rightarrow> (Inr (Some neoData), w1)
            | None \<Rightarrow>
                (case FetchAndStoreNEO w1 of
                   (Some e, w2) \<Rightarrow> (Inl e, w2)
                 | (None, w2) \<Rightarrow>
                     (case GetJSON w2 cacheKey (dec_doc lb) of
                        (Inl e, w3) \<Rightarrow> (Inl (Wrap ''failed to get NEO data'' e), w3)
                      | (Inr neoData, w3) \<Rightarrow> (Inr neoData, w3)))))"

definition GetAPOD :: "lib \<Rightarrow> world \<Rightarrow> string \<Rightarrow> (err + doc option) \<times> world" where
  "GetAPOD lb w date = GetLatestAPOD lb w"

definition GetNEOWatch :: "lib \<Rightarrow> world \<Rightarrow> int \<Rightarrow> (err + doc option) \<times> world" where
  "GetNEOWatch lb w days = GetLatestNEO lb w days"

definition GetDONKI :: "lib \<Rightarrow> world \<Rightarrow> string \<Rightarrow> int \<Rightarrow> (err + doc list) \<times> world" where
  "GetDONKI lb w eventType days0 =
     (let days = (if days0 < 1 \<or> days0 > 30 then 5 else days0);
          cacheKey = ''nasa:donki:'' @ eventType @ '':'' @ itoa days @ ''d''
      in case GetJSON w cacheKey (dec_docs lb) of (got, w1) \<Rightarrow>
           (case (case got of Inr (Some ds) \<Rightarrow> Some ds | _ \<Rightarrow> None) of
              Some cachedEvents \<Rightarrow> (Inr cachedEvents, w1)
            | None \<Rightarrow>
                (case FetchDONKI w1 eventType days of
                   (Inl e, w2) \<Rightarrow> (Inl (Wrap ''failed to fetch DONKI data'' e), w2)
                 | (Inr events, w2) \<Rightarrow>
                     (case SetJSON w2 cacheKey (EncDocs events) (1 * hour) of (_, w3) \<Rightarrow>
                        (Inr events, w3)))))"

section \<open>Reads and synchronization ticks, by name\<close>

text \<open>The read operations of the services; \<open>serve_read\<close> is the world a read leaves.\<close>

datatype read_op =
    ReadLastPosition
  | ReadTrend int
  | ReadPositionsHistory int
  | ReadOSDRList int int
  | ReadLatestAPOD
  | ReadLatestNEO int
  | ReadAPOD string
  | ReadNEOWatch int
  | ReadDONKI string int

fun serve_read :: "lib \<Rightarrow> read_op \<Rightarrow> world \<Rightarrow> world" where
  "serve_read lb ReadLastPosition w = snd (GetLastPosition lb w)"
| "serve_read lb (ReadTrend limit) w = snd (GetTrend lb w limit)"
| "serve_read lb (ReadPositionsHistory hours) w = snd (GetPositionsHistory lb w hours)"
| "serve_read lb (ReadOSDRList page limit) w = snd (GetOSDRList lb w page limit)"
| "serve_read lb ReadLatestAPOD w = snd (GetLatestAPOD lb w)"
| "serve_read lb (ReadLatestNEO days) w = snd (GetLatestNEO lb w days)"
| "serve_read lb (ReadAPOD date) w = snd (GetAPOD lb w date)"
| "serve_read lb (ReadNEOWatch days) w = snd (GetNEOWatch lb w days)"
| "serve_read lb (ReadDONKI eventType days) w = snd (GetDONKI lb w eventType days)"

text \<open>
  The synchronization of each fetch domain, and a worker's tick on it: the worker logs the
  error and goes on.
\<close>

datatype domain = ISS | OSDR | APOD | NEO

fun sync :: "lib \<Rightarrow> time \<Rightarrow> domain \<Rightarrow> world \<Rightarrow> err option \<times> world" where
  "sync lb interval ISS w = FetchAndStoreISSData interval w"
| "sync lb interval OSDR w = FetchAndStoreOSDR lb w"
| "sync lb interval APOD w = FetchAndStoreAPOD w"
| "sync lb interval NEO w = FetchAndStoreNEO w"

definition tick :: "lib \<Rightarrow> time \<Rightarrow> domain \<Rightarrow> world \<Rightarrow> world" where
  "tick lb interval d w = snd (sync lb interval d w)"

text \<open>
  The length of time a domain's fetch lock is set for; for APOD and NEO, which set no
  lock, the time their cached answer lives.
\<close>

fun refetch_interval :: "time \<Rightarrow> domain \<Rightarrow> time" where
  "refetch_interval interval ISS = interval"
| "refetch_interval interval OSDR = 10 * minute"
| "refetch_interval interval APOD = 24 * hour"
| "refetch_interval interval NEO = 2 * hour"

text \<open>\<open>ISSWorker.fetchISSData\<close> and \<open>NASAWorker.syncNASA\<close>.\<close>

definition fetchISSData :: "time \<Rightarrow> world \<Rightarrow> world" where
  "fetchISSData interval w = snd (FetchAndStoreISSData interval w)"

definition syncNASA :: "lib \<Rightarrow> world \<Rightarrow> world" where
  "syncNASA lb w =
     (let w1 = snd (FetchAndStoreOSDR lb w);
          w2 = snd (FetchAndStoreAPOD w1);
          w3 = snd (FetchAndStoreNEO w2)
      in w3)"

section \<open>Scheduler\<close>

text \<open>
  The scheduler's fields, with the goroutines it has launched (each calls the worker's
  \<open>Start\<close>) and the \<open>Stop\<close> calls it has made on workers, in order.
\<close>

record 'w Scheduler =
  workers :: "'w list"
  stopped :: bool
  launched :: "'w list"
  stop_calls :: "'w list"

definition NewScheduler :: "'w Scheduler" where
  "NewScheduler = \<lparr>workers = [], stopped = False, launched = [], stop_calls = []\<rparr>"

definition AddWorker :: "'w \<Rightarrow> 'w Scheduler \<Rightarrow> 'w Scheduler" where
  "AddWorker worker s = s\<lparr>workers := workers s @ [worker]\<rparr>"

definition Start :: "'w Scheduler \<Rightarrow> 'w Scheduler" where
  "Start s = (if stopped s then s else s\<lparr>launched := launched s @ workers s\<rparr>)"

definition Stop :: "'w Scheduler \<Rightarrow> 'w Scheduler" where
  "Stop s = s\<lparr>stopped := True, stop_calls := stop_calls s @ workers s\<rparr>"

definition IsRunning :: "'w Scheduler \<Rightarrow> bool" where
  "IsRunning s = (\<not> stopped s)"

datatype 'w sched_call = CallAddWorker 'w | CallStart | CallStop

fun sched_apply :: "'w sched_call \<Rightarrow> 'w Scheduler \<Rightarrow> 'w Scheduler" where
  "sched_apply (CallAddWorker worker) s = AddWorker worker s"
| "sched_apply CallStart s = Start s"
| "sched_apply CallStop s = Stop s"

fun sched_run :: "'w sched_call list \<Rightarrow> 'w Scheduler \<Rightarrow> 'w Scheduler" where
  "sched_run [] s = s"
| "sched_run (c # cs) s = sched_run cs (sched_apply c s)"

section \<open>Notions used in the statements\<close>

text \<open>
  The lock check at the head of \<open>FetchAndStoreISSData\<close> and \<open>FetchAndStoreOSDR\<close> returns
  early exactly when the read of the lock key succeeds with a text that is not empty.
\<close>

definition lock_held :: "world \<Rightarrow> string \<Rightarrow> bool" where
  "lock_held w key =
     (if cache_fail w (cache_ops w) then False
      else (case live w key of None \<Rightarrow> False | Some v \<Rightarrow> v \<noteq> B (Raw [])))"

text \<open>
  The constraints the OSDR table is declared with: primary keys are set and differ, the
  natural keys differ.
\<close>

definition table_ok :: "OSDRItem list \<Rightarrow> bool" where
  "table_ok rows =
     (distinct (map item_ID rows) \<and> distinct (map DatasetID rows)
      \<and> 0 \<notin> set (map item_ID rows))"

text \<open>The rows stored under a natural key.\<close>

definition rows_under :: "string \<Rightarrow> world \<Rightarrow> OSDRItem list" where
  "rows_under k w = filter (\<lambda>r. DatasetID r = k) (osdr_items w)"

text \<open>The last record of a batch that carries a natural key.\<close>

definition last_with_key :: "string \<Rightarrow> OSDRItem list \<Rightarrow> OSDRItem option" where
  "last_with_key k items = find (\<lambda>i. DatasetID i = k) (rev items)"

text \<open>
  A row holds the natural key, the title, the status and the raw payload of a record of a
  batch.
\<close>

definition stored_as :: "OSDRItem \<Rightarrow> OSDRItem \<Rightarrow> bool" where
  "stored_as r i =
     (DatasetID r = DatasetID i \<and> Title r = Title i \<and> Status r = Status i
      \<and> RawJSON r = RawJSON i)"

text \<open>
  The second world differs from the first in the OSDR table and the count of database
  operations at most.
\<close>

definition db_only :: "world \<Rightarrow> world \<Rightarrow> bool" where
  "db_only w w' = (w' = w\<lparr>osdr_items := osdr_items w', db_ops := db_ops w'\<rparr>)"

text \<open>
  The states the services reach: from any state with an empty key/value store, by the
  reads, the synchronization ticks, the force-fetch handler and the passing of time.
\<close>

inductive reachable :: "lib \<Rightarrow> world \<Rightarrow> bool" for lb :: lib where
  start: "kv w = (\<lambda>key. None) \<Longrightarrow> reachable lb w"
| read: "reachable lb w \<Longrightarrow> reachable lb (serve_read lb r w)"
| synchronize: "reachable lb w \<Longrightarrow> reachable lb (tick lb interval d w)"
| force: "reachable lb w \<Longrightarrow> reachable lb (snd (ForceFetchISS interval w))"
| wait: "reachable lb w \<Longrightarrow> reachable lb (advance dt w)"

text \<open>
  A trend is cached only when two positions are stored; and a step that keeps this: the
  table of positions does not shrink, and a trend key that is new comes with two
  positions stored.
\<close>

definition trend_cache_ok :: "world \<Rightarrow> bool" where
  "trend_cache_ok w =
     (\<forall>s. kv w (''iss:trend:'' @ s) \<noteq> None \<longrightarrow> 2 \<le> length (iss_logs w))"

definition trend_step :: "world \<Rightarrow> world \<Rightarrow> bool" where
  "trend_step w w' =
     (length (iss_logs w) \<le> length (iss_logs w')
      \<and> (\<forall>s. kv w' (''iss:trend:'' @ s) \<noteq> None \<longrightarrow>
             kv w (''iss:trend:'' @ s) \<noteq> None \<or> 2 \<le> length (iss_logs w')))"

text \<open>
  What one record with a natural key and no primary key does to the table of a working
  database: the two database operations of one turn of the loop of \<open>BulkUpsert\<close>.
\<close>

definition upsert_one :: "world \<Rightarrow> OSDRItem \<Rightarrow> world" where
  "upsert_one w item =
     (case find (\<lambda>r. DatasetID r = DatasetID item) (osdr_items w) of
        None \<Rightarrow>
          w\<lparr>db_ops := Suc (Suc (db_ops w)),
            osdr_items := osdr_items w @
              [item\<lparr>item_ID := fresh_id (map item_ID (osdr_items w)),
                    item_UpdatedAt := (case item_UpdatedAt item of
                                         None \<Rightarrow> Some (clock w)
                                       | Some t \<Rightarrow> Some t),
                    InsertedAt := stamp w (InsertedAt item),
                    item_CreatedAt := stamp w (item_CreatedAt item)\<rparr>]\<rparr>
      | Some existing \<Rightarrow>
          w\<lparr>db_ops := Suc (Suc (db_ops w)),
            osdr_items :=
              map (\<lambda>r. if item_ID r = item_ID existing
                       then item\<lparr>item_ID := item_ID existing,
                                 item_CreatedAt := item_CreatedAt existing,
                                 item_UpdatedAt := Some (clock w)\<rparr>
                       else r) (osdr_items w)\<rparr>)"

subsection \<open>Concrete worlds\<close>

definition example_lib :: lib where
  "example_lib =
     \<lparr>Sscanf_f = (\<lambda>s. None), ParseRFC3339 = (\<lambda>s. None),
      Int64_out_of_range = (\<lambda>v. - (2 ^ 63)),
      Unmarshal_trend = (\<lambda>v. None), Unmarshal_logs = (\<lambda>v. None),
      Unmarshal_items = (\<lambda>v. None), Unmarshal_doc = (\<lambda>v. None),
      Unmarshal_docs = (\<lambda>v. None)\<rparr>"

text \<open>
  Nothing cached, nothing stored, nothing failing; the upstream sources answer every call.
\<close>

definition example_world :: world where
  "example_world =
     \<lparr>clock = 1000 * second,
      kv = (\<lambda>key. None),
      cache_ops = 0,
      cache_fail = (\<lambda>n. False),
      iss_logs = [],
      osdr_items = [],
      db_ops = 0,
      db_fail = (\<lambda>n. False),
      calls = [],
      api_doc = (\<lambda>n. Inr [(''latitude'', JNum 10), (''longitude'', JNum 20)]),
      api_docs = (\<lambda>n. Inr [[(''dataset_id'', JStr ''OSD-1''), (''title'', JStr ''Mice'')],
                             [(''title'', JStr ''no key'')]])\<rparr>"



text \<open>The same with the key/value store and the database both refusing every operation.\<close>

definition all_down_world :: world where
  "all_down_world = example_world\<lparr>cache_fail := (\<lambda>n. True), db_fail := (\<lambda>n. True)\<rparr>"

text \<open>
  Two positions stored, one degree of latitude apart at the same longitude, taken a
  minute apart; the key/value store is empty and working.
\<close>

definition one_degree_world :: world where
  "one_degree_world =
     example_world\<lparr>iss_logs :=
       [\<lparr>ID = 1, FetchedAt = 900 * second, SourceURL = iss_source_url,
          Payload = Obj [(''latitude'', JNum 10), (''longitude'', JNum 20)],
          CreatedAt = 900 * second, UpdatedAt = 900 * second\<rparr>,
        \<lparr>ID = 2, FetchedAt = 960 * second, SourceURL = iss_source_url,
          Payload = Obj [(''latitude'', JNum 11), (''longitude'', JNum 20)],
          CreatedAt = 960 * second, UpdatedAt = 960 * second\<rparr>]\<rparr>"

text \<open>
  One position stored and the key/value store refusing every operation; the database
  answers.
\<close>

definition one_sample_world :: world where
  "one_sample_world =
     example_world\<lparr>cache_fail := (\<lambda>n. True),
                    iss_logs :=
       [\<lparr>ID = 1, FetchedAt = 900 * second, SourceURL = iss_source_url,
          Payload = Obj [(''latitude'', JNum 10), (''longitude'', JNum 20)],
          CreatedAt = 900 * second, UpdatedAt = 900 * second\<rparr>]\<rparr>"

text \<open>Records as the synchronization builds them, one of them without a natural key.\<close>

definition mice_record :: OSDRItem where
  "mice_record =
     \<lparr>item_ID = 0, DatasetID = ''OSD-1'', Title = ''Mice'', Status = ''open'',
      item_UpdatedAt = Some (500 * second), InsertedAt = 0,
      RawJSON = Obj [(''dataset_id'', JStr ''OSD-1''), (''title'', JStr ''Mice'')],
      item_CreatedAt = 0\<rparr>"

definition mice_record_v2 :: OSDRItem where
  "mice_record_v2 =
     \<lparr>item_ID = 0, DatasetID = ''OSD-1'', Title = ''Mice, second flight'', Status = ''closed'',
      item_UpdatedAt = Some (700 * second), InsertedAt = 0,
      RawJSON = Obj [(''dataset_id'', JStr ''OSD-1''), (''title'', JStr ''Mice, second flight'')],
      item_CreatedAt = 0\<rparr>"


definition plants_record :: OSDRItem where
  "plants_record =
     \<lparr>item_ID = 0, DatasetID = ''OSD-2'', Title = ''Plants'', Status = ''open'',
      item_UpdatedAt = None, InsertedAt = 0,
      RawJSON = Obj [(''dataset_id'', JStr ''OSD-2''), (''title'', JStr ''Plants'')],
      item_CreatedAt = 0\<rparr>"

section \<open>Properties of the great-circle distance\<close>

lemma haversineDistance_hav_a:
  "haversineDistance lat1 lon1 lat2 lon2 =
     6371 * (2 * Atan2 (sqrt (hav_a lat1 lon1 lat2 lon2)) (sqrt (1 - hav_a lat1 lon1 lat2 lon2)))"
  by (simp add: haversineDistance_def hav_a_def Let_def)

lemma Atan2_nonneg: "0 \<le> y \<Longrightarrow> 0 \<le> Atan2 y x"
proof -
  assume y: "0 \<le> y"
  have "x < 0 \<Longrightarrow> 0 \<le> arctan (y / x) + pi"
    using arctan_lbound [of "y / x"] pi_gt_zero by linarith
  with y show ?thesis
    by (auto simp: Atan2_def)
qed

lemma hav_a_sym: "hav_a lat1 lon1 lat2 lon2 = hav_a lat2 lon2 lat1 lon1"
proof -
  have s: "\<And>x y::real. sin ((x - y) * pi / 180 / 2) = - sin ((y - x) * pi / 180 / 2)"
  proof -
    fix x y :: real
    have "(x - y) * pi / 180 / 2 = - ((y - x) * pi / 180 / 2)" by (simp add: field_simps)
    then show "sin ((x - y) * pi / 180 / 2) = - sin ((y - x) * pi / 180 / 2)"
      by (simp only: sin_minus)
  qed
  show ?thesis
    unfolding hav_a_def s [of lat2 lat1] s [of lon2 lon1]
    by (simp add: mult.commute)
qed

lemma hav_a_convex:
  "hav_a lat1 lon1 lat2 lon2 =
     (1 - (sin ((lon2 - lon1) * pi / 180 / 2))\<^sup>2) * (sin ((lat2 - lat1) * pi / 180 / 2))\<^sup>2
     + (sin ((lon2 - lon1) * pi / 180 / 2))\<^sup>2 * (cos ((lat1 + lat2) * pi / 180 / 2))\<^sup>2"
proof -
  define h where "h = (lat2 - lat1) * pi / 180 / 2"
  define k where "k = (lat1 + lat2) * pi / 180 / 2"
  define u where "u = sin ((lon2 - lon1) * pi / 180 / 2)"
  have p: "lat1 * pi / 180 = k - h" and q: "lat2 * pi / 180 = k + h"
    by (simp_all add: h_def k_def field_simps)
  have cc: "cos (k - h) * cos (k + h) = (cos (2 * h) + cos (2 * k)) / 2"
    using cos_times_cos [of "k + h" "k - h"] by (simp add: mult.commute)
  have "hav_a lat1 lon1 lat2 lon2 = sin h * sin h + cos (k - h) * cos (k + h) * u * u"
    unfolding hav_a_def p q by (simp only: h_def u_def)
  also have "\<dots> = (sin h)\<^sup>2 + (cos (2 * h) + cos (2 * k)) / 2 * u\<^sup>2"
    unfolding cc by (simp add: power2_eq_square)
  also have "\<dots> = (1 - u\<^sup>2) * (sin h)\<^sup>2 + u\<^sup>2 * (cos k)\<^sup>2"
    unfolding cos_double_sin [of h] cos_double_cos [of k] by (simp add: field_simps)
  finally show ?thesis unfolding h_def k_def u_def .
qed

lemma hav_a_nonneg: "0 \<le> hav_a lat1 lon1 lat2 lon2"
proof -
  have "(sin ((lon2 - lon1) * pi / 180 / 2))\<^sup>2 \<le> 1"
    by (simp add: abs_square_le_1)
  then show ?thesis
    unfolding hav_a_convex by (intro add_nonneg_nonneg mult_nonneg_nonneg) simp_all
qed

text \<open>So neither square root of the distance is taken of a negative number.\<close>

lemma hav_a_le_one: "hav_a lat1 lon1 lat2 lon2 \<le> 1"
proof -
  define u where "u = (sin ((lon2 - lon1) * pi / 180 / 2))\<^sup>2"
  define s where "s = (sin ((lat2 - lat1) * pi / 180 / 2))\<^sup>2"
  define c where "c = (cos ((lat1 + lat2) * pi / 180 / 2))\<^sup>2"
  have u: "0 \<le> u" "u \<le> 1" and s: "s \<le> 1" and c: "c \<le> 1"
    by (simp_all add: u_def s_def c_def abs_square_le_1)
  have "(1 - u) * s \<le> (1 - u) * 1" using u s by (intro mult_left_mono) simp_all
  moreover have "u * c \<le> u * 1" using u c by (intro mult_left_mono) simp_all
  ultimately have "(1 - u) * s + u * c \<le> 1" by simp
  then show ?thesis
    unfolding hav_a_convex u_def s_def c_def .
qed

lemma hav_a_self: "hav_a lat lon lat lon = 0"
  by (simp add: hav_a_def)

text \<open>
  The formula of the distance, computed exactly, is symmetric in its two points, never
  negative, and zero from a point to itself. At two antipodal points the term \<open>a\<close> is
  exactly 1, the end of the range in which \<open>1 - a\<close> has a square root.
\<close>

lemma hav_a_antipodal: "hav_a (- 12) (- 90) 12 90 = 1"
proof -
  have "hav_a (- 12) (- 90) 12 90
          = (sin (12 * pi / 180))\<^sup>2 + (cos (12 * pi / 180))\<^sup>2 * (sin (pi / 2))\<^sup>2"
    by (simp add: hav_a_def power2_eq_square)
  then show ?thesis by simp
qed

lemma exact_formula_symmetric_nonneg:
  "haversineDistance lat1 lon1 lat2 lon2 = haversineDistance lat2 lon2 lat1 lon1
   \<and> 0 \<le> haversineDistance lat1 lon1 lat2 lon2
   \<and> haversineDistance lat1 lon1 lat1 lon1 = 0"
proof (intro conjI)
  show "haversineDistance lat1 lon1 lat2 lon2 = haversineDistance lat2 lon2 lat1 lon1"
    unfolding haversineDistance_hav_a by (simp only: hav_a_sym [of lat1 lon1 lat2 lon2])
  have "0 \<le> sqrt (hav_a lat1 lon1 lat2 lon2)"
    using hav_a_nonneg by simp
  then show "0 \<le> haversineDistance lat1 lon1 lat2 lon2"
    unfolding haversineDistance_hav_a using Atan2_nonneg by simp
  show "haversineDistance lat1 lon1 lat1 lon1 = 0"
    by (simp add: haversineDistance_hav_a hav_a_self Atan2_def)
qed

section \<open>What each collaborator's operation leaves\<close>

lemma redis_get_eq:
  "redis_get w key =
     (if cache_fail w (cache_ops w) then Inl ErrCache else Inr (live w key),
      w\<lparr>cache_ops := Suc (cache_ops w)\<rparr>)"
  by (simp add: redis_get_def Let_def)

lemma Get_eq:
  "Get w key =
     (if cache_fail w (cache_ops w) then Inl ErrCache
      else Inr (case live w key of None \<Rightarrow> B (Raw []) | Some v \<Rightarrow> v),
      w\<lparr>cache_ops := Suc (cache_ops w)\<rparr>)"
  by (simp add: Get_def redis_get_eq split: option.splits)

lemma GetJSON_eq:
  "GetJSON w key dec =
     (if cache_fail w (cache_ops w) then Inl ErrCache
      else (case live w key of
              None \<Rightarrow> Inr None
            | Some v \<Rightarrow> (case dec v of None \<Rightarrow> Inl ErrUnmarshal | Some x \<Rightarrow> Inr (Some x))),
      w\<lparr>cache_ops := Suc (cache_ops w)\<rparr>)"
  by (simp add: GetJSON_def redis_get_eq split: option.splits)

lemma redis_set_eq:
  "redis_set w key v ttl =
     (if cache_fail w (cache_ops w) then Some ErrCache else None,
      if cache_fail w (cache_ops w) then w\<lparr>cache_ops := Suc (cache_ops w)\<rparr>
      else w\<lparr>cache_ops := Suc (cache_ops w),
             kv := (kv w)(key \<mapsto> (v, if 0 < ttl then Some (clock w + ttl) else None))\<rparr>)"
  by (simp add: redis_set_def Let_def)

lemma snd_Get [simp]: "snd (Get w key) = w\<lparr>cache_ops := Suc (cache_ops w)\<rparr>"
  by (simp add: Get_eq)

lemma snd_GetJSON [simp]: "snd (GetJSON w key dec) = w\<lparr>cache_ops := Suc (cache_ops w)\<rparr>"
  by (simp add: GetJSON_eq)

lemma calls_redis_set [simp]: "calls (snd (redis_set w key v ttl)) = calls w"
  by (simp add: redis_set_eq)

lemma calls_GetLast [simp]: "calls (snd (GetLast w)) = calls w"
  by (simp add: GetLast_def Let_def split: list.splits)

lemma calls_GetLastN [simp]: "calls (snd (GetLastN w n)) = calls w"
  by (simp add: GetLastN_def Let_def)

lemma calls_GetSince [simp]: "calls (snd (GetSince w t)) = calls w"
  by (simp add: GetSince_def Let_def)

lemma calls_GetPaginated [simp]: "calls (snd (GetPaginated w p l)) = calls w"
  by (simp add: GetPaginated_def Let_def)

section \<open>Reads\<close>





lemma GetLast_cache_ops [simp]:
  "fst (GetLast (w\<lparr>cache_ops := n\<rparr>)) = fst (GetLast w)"
  by (simp add: GetLast_def Let_def split: list.splits)

lemma GetSince_cache_ops [simp]:
  "fst (GetSince (w\<lparr>cache_ops := n\<rparr>) t) = fst (GetSince w t)"
  by (simp add: GetSince_def Let_def)

lemma GetPaginated_cache_ops [simp]:
  "fst (GetPaginated (w\<lparr>cache_ops := n\<rparr>) p l) = fst (GetPaginated w p l)"
  by (simp add: GetPaginated_def Let_def)









section \<open>Scheduler\<close>

lemma stopped_sched_apply:
  "stopped s \<Longrightarrow> stopped (sched_apply c s) \<and> launched (sched_apply c s) = launched s"
  by (cases c) (simp_all add: AddWorker_def Start_def Stop_def)

lemma stopped_sched_run:
  "stopped s \<Longrightarrow> stopped (sched_run cs s) \<and> launched (sched_run cs s) = launched s"
proof (induction cs arbitrary: s)
  case Nil
  then show ?case by simp
next
  case (Cons c cs)
  from Cons.prems have "stopped (sched_apply c s)" and l: "launched (sched_apply c s) = launched s"
    using stopped_sched_apply by blast+
  with Cons.IH [of "sched_apply c s"] show ?case by simp
qed

text \<open>
  C9, as amended. Once \<open>Stop\<close> has been called the scheduler is marked stopped and
  stays so whatever is called later, a later \<open>Start\<close> changes nothing, and no later call
  launches a worker. A later \<open>AddWorker\<close> is not rejected: it appends the worker to the
  collection.
\<close>

theorem stop_rejects_start_not_add_worker:
  "stopped (Stop s)
   \<and> \<not> IsRunning (Stop s)
   \<and> Start (Stop s) = Stop s
   \<and> stopped (sched_run cs (Stop s))
   \<and> launched (sched_run cs (Stop s)) = launched (Stop s)
   \<and> workers (AddWorker worker (Stop s)) = workers (Stop s) @ [worker]"
proof -
  have st: "stopped (Stop s)" by (simp add: Stop_def)
  show ?thesis
    using stopped_sched_run [OF st, of cs]
    by (simp add: Stop_def Start_def AddWorker_def IsRunning_def)
qed

text \<open>
  C9, as stated, fails: after \<open>Stop\<close> on a new scheduler, \<open>AddWorker\<close> changes the
  worker collection from empty to the worker added.
\<close>

theorem late_add_worker_changes_workers:
  "workers (AddWorker (7::nat) (Stop NewScheduler)) = [7]
   \<and> workers (Stop (NewScheduler :: nat Scheduler)) = []"
  by (simp add: AddWorker_def Stop_def NewScheduler_def)

section \<open>Evaluations\<close>

lemmas eval_defs =
  FetchAndStoreISSData_def json_Marshal_def Get_eq GetJSON_eq Set_cache_def SetJSON_def redis_set_eq
  GetCurrentPosition_def upstream_doc_def upstream_docs_def iss_Create_def stamp_def
  fresh_id_def live_def Let_def example_world_def second_def minute_def hour_def

text \<open>
  C8. The code at an input where the claim fails: a minute after a synchronization has set
  the ISS fetch lock for two minutes, the lock is held, \<open>ForceFetchISS\<close> answers 200
  "ISS data fetched successfully", and no call has been made to the upstream source.
\<close>

theorem force_fetch_respects_lock:
  "fst (ForceFetchISS (120 * second)
          (advance (60 * second) (fetchISSData (120 * second) example_world)))
     = JSON_ok 200 ''ISS data fetched successfully''
   \<and> calls (snd (ForceFetchISS (120 * second)
          (advance (60 * second) (fetchISSData (120 * second) example_world))))
     = calls (fetchISSData (120 * second) example_world)
   \<and> lock_held (advance (60 * second) (fetchISSData (120 * second) example_world))
        ''iss:last_fetch''"
  by (simp add: ForceFetchISS_def fetchISSData_def advance_def lock_held_def eval_defs)


text \<open>
  C3, as stated, fails: two ticks of the APOD synchronization at the same instant make two
  upstream calls, and so do two ticks of the NEO synchronization.
\<close>

theorem apod_ticks_fetch_twice:
  "calls (tick example_lib (120 * second) APOD (tick example_lib (120 * second) APOD example_world))
     = [CallAPOD [], CallAPOD []]
   \<and> calls (tick example_lib (120 * second) NEO (tick example_lib (120 * second) NEO example_world))
     = [CallNEOFeed 7, CallNEOFeed 7]"
  by (simp add: tick_def FetchAndStoreAPOD_def FetchAPOD_def FetchAndStoreNEO_def FetchNEOFeed_def
        eval_defs)

section \<open>Lists of fewer than two positions\<close>

lemma length_by_fetched_desc [simp]: "length (by_fetched_desc rows) = length rows"
  by (simp add: by_fetched_desc_def)

lemma few_positions:
  "length xs < 2 \<Longrightarrow>
   (case take 2 xs of current # previous # rest \<Rightarrow> f current previous | _ \<Rightarrow> g) = g"
  by (cases xs; cases "tl xs") auto

section \<open>Failed synchronizations\<close>

lemma gate_eq:
  "(case fst (Get w key) of Inr c \<Rightarrow> c \<noteq> B (Raw []) | Inl e \<Rightarrow> False) = lock_held w key"
  by (simp add: Get_eq lock_held_def split: option.splits)

lemma db_only_refl [simp]: "db_only w w"
  by (simp add: db_only_def)

lemma db_only_upd [simp]:
  "db_only w (w\<lparr>db_ops := n\<rparr>)"
  "db_only w (w\<lparr>db_ops := n, osdr_items := rows\<rparr>)"
  "db_only w (w\<lparr>osdr_items := rows\<rparr>)"
  by (simp_all add: db_only_def)

lemma db_only_fields:
  assumes "db_only w w'"
  shows "kv w' = kv w" and "clock w' = clock w" and "cache_ops w' = cache_ops w"
    and "cache_fail w' = cache_fail w" and "calls w' = calls w" and "db_fail w' = db_fail w"
    and "iss_logs w' = iss_logs w" and "api_doc w' = api_doc w" and "api_docs w' = api_docs w"
proof -
  from assms have e: "w' = w\<lparr>osdr_items := osdr_items w', db_ops := db_ops w'\<rparr>"
    by (simp add: db_only_def)
  show "kv w' = kv w" using arg_cong [OF e, of kv] by simp
  show "clock w' = clock w" using arg_cong [OF e, of clock] by simp
  show "cache_ops w' = cache_ops w" using arg_cong [OF e, of cache_ops] by simp
  show "cache_fail w' = cache_fail w" using arg_cong [OF e, of cache_fail] by simp
  show "calls w' = calls w" using arg_cong [OF e, of calls] by simp
  show "db_fail w' = db_fail w" using arg_cong [OF e, of db_fail] by simp
  show "iss_logs w' = iss_logs w" using arg_cong [OF e, of iss_logs] by simp
  show "api_doc w' = api_doc w" using arg_cong [OF e, of api_doc] by simp
  show "api_docs w' = api_docs w" using arg_cong [OF e, of api_docs] by simp
qed

lemma db_only_trans: "db_only w w1 \<Longrightarrow> db_only w1 w2 \<Longrightarrow> db_only w w2"
proof -
  assume a: "db_only w w1" and b: "db_only w1 w2"
  have "w2 = w1\<lparr>osdr_items := osdr_items w2, db_ops := db_ops w2\<rparr>"
    using b by (simp add: db_only_def)
  also have "w1 = w\<lparr>osdr_items := osdr_items w1, db_ops := db_ops w1\<rparr>"
    using a by (simp add: db_only_def)
  finally show ?thesis by (simp add: db_only_def)
qed

lemma osdr_Create_db_only: "db_only w (snd (osdr_Create w i))"
  by (simp add: osdr_Create_def Let_def)

lemma osdr_Save_db_only: "db_only w (snd (osdr_Save w i))"
  by (simp add: osdr_Save_def osdr_Create_db_only Let_def)

lemma upsert_items_db_only: "db_only w (snd (upsert_items w xs))"
proof (induction xs arbitrary: w)
  case Nil
  show ?case by simp
next
  case (Cons x xs)
  let ?w1 = "w\<lparr>db_ops := Suc (db_ops w)\<rparr>"
  have w1: "db_only w ?w1" by simp
  show ?case
  proof (cases "DatasetID x = []")
    case True
    then show ?thesis using Cons.IH by simp
  next
    case False
    show ?thesis
    proof (cases "db_fail w (db_ops w)")
      case True
      with False show ?thesis by (simp add: Let_def)
    next
      case nofail: False
      show ?thesis
      proof (cases "find (\<lambda>r. DatasetID r = DatasetID x) (osdr_items w)")
        case None
        have c: "db_only w (snd (osdr_Create ?w1 x))"
          using db_only_trans [OF w1 osdr_Create_db_only] .
        show ?thesis
          using False nofail None c db_only_trans [OF c Cons.IH]
          by (simp add: Let_def case_prod_beta split: option.splits)
      next
        case (Some ex)
        let ?i = "x\<lparr>item_ID := item_ID ex, item_CreatedAt := item_CreatedAt ex\<rparr>"
        have c: "db_only w (snd (osdr_Save ?w1 ?i))"
          using db_only_trans [OF w1 osdr_Save_db_only] .
        show ?thesis
          using False nofail Some c db_only_trans [OF c Cons.IH]
          by (simp add: Let_def case_prod_beta split: option.splits)
      qed
    qed
  qed
qed

lemma BulkUpsert_db_only: "db_only w (snd (BulkUpsert w xs))"
proof -
  let ?w0 = "w\<lparr>db_ops := Suc (db_ops w)\<rparr>"
  let ?u = "snd (upsert_items ?w0 xs)"
  have u: "db_only w ?u"
    using db_only_trans [OF db_only_upd(1) upsert_items_db_only] .
  have "db_only w (?u\<lparr>db_ops := n\<rparr>)"
    and "db_only w (?u\<lparr>db_ops := n, osdr_items := osdr_items w\<rparr>)" for n
    using db_only_trans [OF u db_only_upd(1)] db_only_trans [OF u db_only_upd(2)] by blast+
  then show ?thesis
    unfolding BulkUpsert_def Let_def
    by (simp add: case_prod_beta split: option.splits)
qed

lemma GetCurrentPosition_eq:
  "GetCurrentPosition w = (api_doc w (length (calls w)), w\<lparr>calls := calls w @ [CallISSPosition]\<rparr>)"
  by (simp add: GetCurrentPosition_def upstream_doc_def)

lemma FetchOSDR_eq:
  "FetchOSDR w = (api_docs w (length (calls w)), w\<lparr>calls := calls w @ [CallOSDR]\<rparr>)"
  by (simp add: FetchOSDR_def upstream_docs_def)

lemma iss_locked:
  "lock_held w ''iss:last_fetch'' \<Longrightarrow>
   FetchAndStoreISSData iv w = (None, w\<lparr>cache_ops := Suc (cache_ops w)\<rparr>)"
  unfolding FetchAndStoreISSData_def Let_def
  by (simp add: case_prod_beta gate_eq)

lemma iss_fetch_failure:
  "\<not> lock_held w ''iss:last_fetch'' \<Longrightarrow> api_doc w (length (calls w)) = Inl e \<Longrightarrow>
   FetchAndStoreISSData iv w =
     (Some (Wrap ''failed to fetch ISS data'' e),
      w\<lparr>cache_ops := Suc (cache_ops w), calls := calls w @ [CallISSPosition]\<rparr>)"
  unfolding FetchAndStoreISSData_def Let_def
  by (simp add: case_prod_beta gate_eq GetCurrentPosition_eq)

lemma iss_persist_failure:
  "\<not> lock_held w ''iss:last_fetch'' \<Longrightarrow> api_doc w (length (calls w)) = Inr data \<Longrightarrow>
   db_fail w (db_ops w) \<Longrightarrow>
   FetchAndStoreISSData iv w =
     (Some (Wrap ''failed to save ISS data to DB'' ErrDB),
      w\<lparr>cache_ops := Suc (cache_ops w), calls := calls w @ [CallISSPosition],
        db_ops := Suc (db_ops w)\<rparr>)"
  unfolding FetchAndStoreISSData_def Let_def
  by (simp add: case_prod_beta gate_eq GetCurrentPosition_eq iss_Create_def json_Marshal_def Let_def)

lemma iss_success:
  assumes "\<not> lock_held w ''iss:last_fetch''" and "api_doc w (length (calls w)) = Inr data"
    and "\<not> db_fail w (db_ops w)"
  shows "fst (FetchAndStoreISSData iv w) = None"
    and "clock (snd (FetchAndStoreISSData iv w)) = clock w"
    and "cache_fail (snd (FetchAndStoreISSData iv w)) = cache_fail w"
    and "cache_ops (snd (FetchAndStoreISSData iv w)) = Suc (Suc (Suc (cache_ops w)))"
    and "calls (snd (FetchAndStoreISSData iv w)) = calls w @ [CallISSPosition]"
    and "\<not> cache_fail w (Suc (Suc (cache_ops w))) \<Longrightarrow>
         kv (snd (FetchAndStoreISSData iv w)) ''iss:last_fetch''
           = Some (B (Raw ''1''), if 0 < iv then Some (clock w + iv) else None)"
  using assms unfolding FetchAndStoreISSData_def Let_def
  by (simp_all add: case_prod_beta gate_eq GetCurrentPosition_eq iss_Create_def Let_def
        json_Marshal_def Set_cache_def redis_set_eq)

lemma osdr_locked:
  "lock_held w ''nasa:osdr:last_fetch'' \<Longrightarrow>
   FetchAndStoreOSDR lb w = (None, w\<lparr>cache_ops := Suc (cache_ops w)\<rparr>)"
  unfolding FetchAndStoreOSDR_def Let_def
  by (simp add: case_prod_beta gate_eq)

lemma osdr_fetch_failure:
  "\<not> lock_held w ''nasa:osdr:last_fetch'' \<Longrightarrow> api_docs w (length (calls w)) = Inl e \<Longrightarrow>
   FetchAndStoreOSDR lb w =
     (Some (Wrap ''failed to fetch OSDR data'' e),
      w\<lparr>cache_ops := Suc (cache_ops w), calls := calls w @ [CallOSDR]\<rparr>)"
  unfolding FetchAndStoreOSDR_def Let_def
  by (simp add: case_prod_beta gate_eq FetchOSDR_eq)

lemma osdr_fetched:
  assumes "\<not> lock_held w ''nasa:osdr:last_fetch''" and "api_docs w (length (calls w)) = Inr items"
  shows "FetchAndStoreOSDR lb w =
     (case (if items \<noteq> []
            then BulkUpsert (w\<lparr>cache_ops := Suc (cache_ops w), calls := calls w @ [CallOSDR]\<rparr>)
                   (map (osdr_item_of lb) items)
            else (None, w\<lparr>cache_ops := Suc (cache_ops w), calls := calls w @ [CallOSDR]\<rparr>)) of
        (Some e, w3) \<Rightarrow> (Some (Wrap ''failed to save OSDR data'' e), w3)
      | (None, w3) \<Rightarrow> (None, snd (Set_cache w3 ''nasa:osdr:last_fetch'' (Raw ''1'') (10 * minute))))"
  using assms unfolding FetchAndStoreOSDR_def Let_def
  by (simp add: case_prod_beta gate_eq FetchOSDR_eq split: option.splits)







lemma locked_after:
  assumes "\<not> cache_fail w1 (cache_ops w1)"
    and "kv w1 key = Some (B (Raw ''1''), if 0 < ttl then Some (t0 + ttl) else None)"
    and "clock w1 = t0" and "dt < ttl"
  shows "lock_held (advance dt w1) key"
  using assms by (simp add: lock_held_def live_def advance_def)

lemma iss_second_tick:
  assumes healthy: "\<forall>n. \<not> cache_fail w n"
    and first: "FetchAndStoreISSData iv w = (None, w1)" and fetched: "calls w1 \<noteq> calls w"
    and dt: "dt < iv"
  shows "length (calls w1) = Suc (length (calls w))"
    and "FetchAndStoreISSData iv (advance dt w1)
           = (None, (advance dt w1)\<lparr>cache_ops := Suc (cache_ops w1)\<rparr>)"
proof -
  have open_gate: "\<not> lock_held w ''iss:last_fetch''"
    using iss_locked [of w iv] first fetched by auto
  obtain data where ok: "api_doc w (length (calls w)) = Inr data"
    using iss_fetch_failure [OF open_gate, of _ iv] first
    by (cases "api_doc w (length (calls w))") auto
  have db: "\<not> db_fail w (db_ops w)"
    using iss_persist_failure [OF open_gate ok, of iv] first by auto
  have w1: "w1 = snd (FetchAndStoreISSData iv w)"
    using first by simp
  have cf: "cache_fail w1 = cache_fail w" and cl: "clock w1 = clock w"
    and lock: "kv w1 ''iss:last_fetch''
                 = Some (B (Raw ''1''), if 0 < iv then Some (clock w + iv) else None)"
    using iss_success [OF open_gate ok db, of iv] healthy by (simp_all add: w1)
  show "length (calls w1) = Suc (length (calls w))"
    using iss_success(5) [OF open_gate ok db, of iv] by (simp add: w1)
  have "lock_held (advance dt w1) ''iss:last_fetch''"
    using healthy by (intro locked_after [OF _ lock cl dt]) (simp add: cf)
  from iss_locked [OF this, of iv]
  show "FetchAndStoreISSData iv (advance dt w1)
           = (None, (advance dt w1)\<lparr>cache_ops := Suc (cache_ops w1)\<rparr>)"
    by (simp add: advance_def)
qed

lemma osdr_second_tick:
  assumes healthy: "\<forall>n. \<not> cache_fail w n"
    and first: "FetchAndStoreOSDR lb w = (None, w1)" and fetched: "calls w1 \<noteq> calls w"
    and dt: "dt < 10 * minute"
  shows "length (calls w1) = Suc (length (calls w))"
    and "FetchAndStoreOSDR lb (advance dt w1)
           = (None, (advance dt w1)\<lparr>cache_ops := Suc (cache_ops w1)\<rparr>)"
proof -
  let ?w2 = "w\<lparr>cache_ops := Suc (cache_ops w), calls := calls w @ [CallOSDR]\<rparr>"
  have open_gate: "\<not> lock_held w ''nasa:osdr:last_fetch''"
    using osdr_locked [of w lb] first fetched by auto
  obtain items where ok: "api_docs w (length (calls w)) = Inr items"
    using osdr_fetch_failure [OF open_gate, of _ lb] first
    by (cases "api_docs w (length (calls w))") auto
  let ?w3 = "snd (if items \<noteq> [] then BulkUpsert ?w2 (map (osdr_item_of lb) items)
                  else (None, ?w2))"
  have w1: "w1 = snd (Set_cache ?w3 ''nasa:osdr:last_fetch'' (Raw ''1'') (10 * minute))"
    using first unfolding osdr_fetched [OF open_gate ok]
    by (auto simp: case_prod_beta split: option.splits)
  have fr: "db_only ?w2 ?w3" by (simp add: BulkUpsert_db_only)
  have cf3: "cache_fail ?w3 = cache_fail w" and cl3: "clock ?w3 = clock w"
    and ca3: "calls ?w3 = calls w @ [CallOSDR]"
    using db_only_fields [OF fr] by simp_all
  have nf: "\<not> cache_fail ?w3 (cache_ops ?w3)"
    using healthy by (simp add: cf3)
  have cf: "cache_fail w1 = cache_fail w" and cl: "clock w1 = clock w"
    and lock: "kv w1 ''nasa:osdr:last_fetch''
                 = Some (B (Raw ''1''),
                     if 0 < 10 * minute then Some (clock w + 10 * minute) else None)"
    and ca: "calls w1 = calls w @ [CallOSDR]"
    using nf by (simp_all add: w1 Set_cache_def redis_set_eq cf3 cl3 ca3)
  show "length (calls w1) = Suc (length (calls w))"
    by (simp add: ca)
  have "lock_held (advance dt w1) ''nasa:osdr:last_fetch''"
    using healthy by (intro locked_after [OF _ lock cl dt]) (simp add: cf)
  from osdr_locked [OF this, of lb]
  show "FetchAndStoreOSDR lb (advance dt w1)
           = (None, (advance dt w1)\<lparr>cache_ops := Suc (cache_ops w1)\<rparr>)"
    by (simp add: advance_def)
qed

text \<open>
  C3, as amended. For the two domains that have a fetch lock (ISS, OSDR), with the
  key/value store working: when a tick has fetched from the upstream source and returned
  no error, a second tick less than the domain's refetch interval later makes no upstream
  call and persists nothing: it returns after the one read of the lock. Over the two
  ticks there is one upstream call.
\<close>

theorem lock_suppresses_second_tick:
  assumes "d = ISS \<or> d = OSDR"
    and "\<forall>n. \<not> cache_fail w n"
    and "sync lb iv d w = (None, w1)" and "calls w1 \<noteq> calls w"
    and "dt < refetch_interval iv d"
  shows "length (calls w1) = Suc (length (calls w))
         \<and> sync lb iv d (advance dt w1) = (None, (advance dt w1)\<lparr>cache_ops := Suc (cache_ops w1)\<rparr>)"
proof -
  from assms(1) show ?thesis
  proof
    assume d: "d = ISS"
    show ?thesis
      using iss_second_tick [OF assms(2) _ assms(4), of iv dt] assms(3,5)
      by (simp add: d)
  next
    assume d: "d = OSDR"
    show ?thesis
      using osdr_second_tick [OF assms(2) _ assms(4), of lb dt] assms(3,5)
      by (simp add: d)
  qed
qed


text \<open>
  C3, the amended statement at a concrete world, for the ISS and for the OSDR domain: a
  second tick a minute after the first.
\<close>

theorem lock_suppresses_second_tick_witness:
  "(\<forall>n. \<not> cache_fail example_world n)
   \<and> sync example_lib (120 * second) ISS example_world
       = (None, tick example_lib (120 * second) ISS example_world)
   \<and> calls (tick example_lib (120 * second) ISS example_world) \<noteq> calls example_world
   \<and> 60 * second < refetch_interval (120 * second) ISS
   \<and> calls (tick example_lib (120 * second) ISS
              (advance (60 * second) (tick example_lib (120 * second) ISS example_world)))
       = [CallISSPosition]
   \<and> iss_logs (tick example_lib (120 * second) ISS
              (advance (60 * second) (tick example_lib (120 * second) ISS example_world)))
       = iss_logs (tick example_lib (120 * second) ISS example_world)
   \<and> sync example_lib (120 * second) OSDR example_world
       = (None, tick example_lib (120 * second) OSDR example_world)
   \<and> calls (tick example_lib (120 * second) OSDR example_world) \<noteq> calls example_world
   \<and> 60 * second < refetch_interval (120 * second) OSDR
   \<and> calls (tick example_lib (120 * second) OSDR
              (advance (60 * second) (tick example_lib (120 * second) OSDR example_world)))
       = [CallOSDR]
   \<and> osdr_items (tick example_lib (120 * second) OSDR
              (advance (60 * second) (tick example_lib (120 * second) OSDR example_world)))
       = osdr_items (tick example_lib (120 * second) OSDR example_world)"
proof -
  let ?iv = "120 * second"
  let ?i1 = "tick example_lib ?iv ISS example_world"
  let ?o1 = "tick example_lib ?iv OSDR example_world"
  have h: "\<forall>n. \<not> cache_fail example_world n"
    by (simp add: example_world_def)
  have fi: "fst (FetchAndStoreISSData ?iv example_world) = None"
    and ci: "calls ?i1 = [CallISSPosition]"
    by (simp_all add: tick_def eval_defs)
  have si: "sync example_lib ?iv ISS example_world = (None, ?i1)"
    using fi by (simp add: tick_def prod_eq_iff)
  have ni: "calls ?i1 \<noteq> calls example_world"
    by (simp add: ci) (simp add: example_world_def)
  have ti: "60 * second < refetch_interval ?iv ISS"
    by (simp add: second_def)
  have fo: "fst (FetchAndStoreOSDR example_lib example_world) = None"
    and co: "calls ?o1 = [CallOSDR]"
    by (simp_all add: tick_def FetchAndStoreOSDR_def FetchOSDR_def BulkUpsert_def
          osdr_item_of_def osdr_Create_def eval_defs)
  have so: "sync example_lib ?iv OSDR example_world = (None, ?o1)"
    using fo by (simp add: tick_def prod_eq_iff)
  have no: "calls ?o1 \<noteq> calls example_world"
    by (simp add: co) (simp add: example_world_def)
  have to: "60 * second < refetch_interval ?iv OSDR"
    by (simp add: second_def minute_def)
  show ?thesis
    using lock_suppresses_second_tick [OF disjI1 [OF refl] h si ni ti]
      lock_suppresses_second_tick [OF disjI2 [OF refl] h so no to]
      h si ni ti so no to ci co
    by (simp add: tick_def advance_def)
qed

section \<open>Batch upsert\<close>

lemma fold_max_ge: "(m::nat) \<le> fold max ids m"
  by (induction ids arbitrary: m) (auto intro: order_trans [OF max.cobounded2])

lemma fold_max_bound: "(i::nat) \<in> set ids \<Longrightarrow> i \<le> fold max ids m"
proof (induction ids arbitrary: m)
  case Nil
  then show ?case by simp
next
  case (Cons a ids)
  show ?case
  proof (cases "i = a")
    case True
    then show ?thesis using fold_max_ge [of "max a m" ids] by simp
  next
    case False
    with Cons show ?thesis by simp
  qed
qed

lemma fresh_id_fresh: "fresh_id ids \<notin> set ids" and fresh_id_pos: "fresh_id ids \<noteq> 0"
  using fold_max_bound [of "fresh_id ids" ids 0] by (auto simp: fresh_id_def)

lemma find_key_iff:
  "distinct (map f rows) \<Longrightarrow> (find (\<lambda>r. f r = k) rows = Some r) = (r \<in> set rows \<and> f r = k)"
  by (induction rows) auto

lemma find_key_None: "(find (\<lambda>r. f r = k) rows = None) = (k \<notin> f ` set rows)"
  by (induction rows) auto

lemma find_snoc:
  "find P (xs @ [y]) =
     (case find P xs of None \<Rightarrow> if P y then Some y else None | Some r \<Rightarrow> Some r)"
  by (induction xs) auto

lemma same_id_same_row:
  "table_ok rows \<Longrightarrow> r \<in> set rows \<Longrightarrow> r' \<in> set rows \<Longrightarrow> item_ID r = item_ID r' \<Longrightarrow> r = r'"
  by (auto simp: table_ok_def distinct_map dest: inj_onD)

lemma upsert_items_step:
  assumes "\<forall>n. \<not> db_fail w n" and "table_ok (osdr_items w)"
    and "item_ID x = 0" and "DatasetID x \<noteq> []"
  shows "upsert_items w (x # xs) = upsert_items (upsert_one w x) xs"
proof (cases "find (\<lambda>r. DatasetID r = DatasetID x) (osdr_items w)")
  case None
  then have "DatasetID x \<notin> DatasetID ` set (osdr_items w)"
    by (simp add: find_key_None)
  with assms None show ?thesis
    by (simp add: upsert_one_def osdr_Create_def stamp_def Let_def split: option.splits)
next
  case (Some ex)
  then have "ex \<in> set (osdr_items w)"
    using assms(2) by (simp add: find_key_iff table_ok_def)
  then have "item_ID ex \<noteq> 0"
    using assms(2) by (auto simp: table_ok_def)
  with assms Some show ?thesis
    by (simp add: upsert_one_def osdr_Save_def Let_def cong: if_cong)
qed


lemma upsert_one_frame:
  "db_fail (upsert_one w x) = db_fail w" "clock (upsert_one w x) = clock w"
  by (simp_all add: upsert_one_def split: option.splits)

lemma upsert_one_rows:
  assumes ok: "table_ok (osdr_items w)" and x0: "item_ID x = 0"
  shows "table_ok (osdr_items (upsert_one w x))"
    and "find (\<lambda>r. DatasetID r = k) (osdr_items (upsert_one w x)) =
           (if k = DatasetID x
            then Some (case find (\<lambda>r. DatasetID r = k) (osdr_items w) of
                         None \<Rightarrow> x\<lparr>item_ID := fresh_id (map item_ID (osdr_items w)),
                                    item_UpdatedAt := (case item_UpdatedAt x of
                                                         None \<Rightarrow> Some (clock w)
                                                       | Some t \<Rightarrow> Some t),
                                    InsertedAt := stamp w (InsertedAt x),
                                    item_CreatedAt := stamp w (item_CreatedAt x)\<rparr>
                       | Some ex \<Rightarrow> x\<lparr>item_ID := item_ID ex,
                                       item_CreatedAt := item_CreatedAt ex,
                                       item_UpdatedAt := Some (clock w)\<rparr>)
            else find (\<lambda>r. DatasetID r = k) (osdr_items w))"
proof -
  let ?rows = "osdr_items w"
  have dk: "distinct (map DatasetID ?rows)" and di: "distinct (map item_ID ?rows)"
    and nz: "0 \<notin> set (map item_ID ?rows)"
    using ok by (simp_all add: table_ok_def)
  show ok': "table_ok (osdr_items (upsert_one w x))"
  proof (cases "find (\<lambda>r. DatasetID r = DatasetID x) ?rows")
    case None
    then have "DatasetID x \<notin> DatasetID ` set ?rows"
      by (simp add: find_key_None)
    with None ok fresh_id_fresh [of "map item_ID ?rows"] fresh_id_pos [of "map item_ID ?rows"]
    show ?thesis
      by (auto simp: upsert_one_def table_ok_def)
  next
    case (Some ex)
    then have ex: "ex \<in> set ?rows" "DatasetID ex = DatasetID x"
      using dk by (simp_all add: find_key_iff)
    let ?f = "\<lambda>r. if item_ID r = item_ID ex
                   then x\<lparr>item_ID := item_ID ex, item_CreatedAt := item_CreatedAt ex,
                          item_UpdatedAt := Some (clock w)\<rparr> else r"
    have ids: "map item_ID (map ?f ?rows) = map item_ID ?rows"
      by simp
    have "DatasetID (?f r) = DatasetID r" if "r \<in> set ?rows" for r
    proof (cases "item_ID r = item_ID ex")
      case True
      then have "r = ex" using same_id_same_row [OF ok that ex(1)] by simp
      then show ?thesis using ex(2) by simp
    next
      case False
      then show ?thesis by simp
    qed
    then have keys: "map DatasetID (map ?f ?rows) = map DatasetID ?rows"
      unfolding map_map map_eq_conv o_def by blast
    have "table_ok (map ?f ?rows)"
      using ok unfolding table_ok_def ids keys by simp
    with Some show ?thesis
      by (simp add: upsert_one_def)
  qed
  have dk': "distinct (map DatasetID (osdr_items (upsert_one w x)))"
    using ok' by (simp add: table_ok_def)
  show "find (\<lambda>r. DatasetID r = k) (osdr_items (upsert_one w x)) =
           (if k = DatasetID x
            then Some (case find (\<lambda>r. DatasetID r = k) ?rows of
                         None \<Rightarrow> x\<lparr>item_ID := fresh_id (map item_ID ?rows),
                                    item_UpdatedAt := (case item_UpdatedAt x of
                                                         None \<Rightarrow> Some (clock w)
                                                       | Some t \<Rightarrow> Some t),
                                    InsertedAt := stamp w (InsertedAt x),
                                    item_CreatedAt := stamp w (item_CreatedAt x)\<rparr>
                       | Some ex \<Rightarrow> x\<lparr>item_ID := item_ID ex,
                                       item_CreatedAt := item_CreatedAt ex,
                                       item_UpdatedAt := Some (clock w)\<rparr>)
            else find (\<lambda>r. DatasetID r = k) ?rows)"
  proof (cases "find (\<lambda>r. DatasetID r = DatasetID x) ?rows")
    case None
    then have rows': "osdr_items (upsert_one w x) = ?rows @
        [x\<lparr>item_ID := fresh_id (map item_ID ?rows),
           item_UpdatedAt := (case item_UpdatedAt x of
                                None \<Rightarrow> Some (clock w)
                              | Some t \<Rightarrow> Some t),
           InsertedAt := stamp w (InsertedAt x),
           item_CreatedAt := stamp w (item_CreatedAt x)\<rparr>]"
      by (simp add: upsert_one_def)
    show ?thesis
      using None unfolding rows' find_snoc
      by (auto split: option.splits)
  next
    case (Some ex)
    then have ex: "ex \<in> set ?rows" "DatasetID ex = DatasetID x"
      using dk by (simp_all add: find_key_iff)
    let ?x' = "x\<lparr>item_ID := item_ID ex, item_CreatedAt := item_CreatedAt ex,
                 item_UpdatedAt := Some (clock w)\<rparr>"
    let ?f = "\<lambda>r. if item_ID r = item_ID ex then ?x' else r"
    have rows': "osdr_items (upsert_one w x) = map ?f ?rows"
      using Some by (simp add: upsert_one_def)
    have dk'': "distinct (map DatasetID (map ?f ?rows))"
      using dk' by (simp only: rows')
    show ?thesis
    proof (cases "k = DatasetID x")
      case True
      have "?x' \<in> set (map ?f ?rows)"
        using ex(1) by (auto simp: image_iff intro!: bexI [of _ ex])
      then have a: "find (\<lambda>r. DatasetID r = k) (map ?f ?rows) = Some ?x'"
        using True find_key_iff [OF dk'', of k ?x'] by simp
      show ?thesis
        unfolding rows' a using True Some by simp
    next
      case False
      show ?thesis
      proof (cases "find (\<lambda>r. DatasetID r = k) ?rows")
        case n: None
        then have "k \<notin> DatasetID ` set ?rows" by (simp add: find_key_None)
        then have "k \<notin> DatasetID ` set (map ?f ?rows)"
          using False by auto
        then have a: "find (\<lambda>r. DatasetID r = k) (map ?f ?rows) = None"
          using find_key_None [of DatasetID k "map ?f ?rows"] by blast
        show ?thesis
          unfolding rows' a n using False by simp
      next
        case s: (Some r)
        then have r: "r \<in> set ?rows" "DatasetID r = k" using dk by (simp_all add: find_key_iff)
        have "item_ID r \<noteq> item_ID ex"
          using same_id_same_row [OF ok r(1) ex(1)] r(2) ex(2) False by auto
        then have "r \<in> set (map ?f ?rows)"
          using r(1) by (auto simp: image_iff intro!: bexI [of _ r])
        then have a: "find (\<lambda>r. DatasetID r = k) (map ?f ?rows) = Some r"
          using r(2) find_key_iff [OF dk'', of k r] by blast
        show ?thesis
          unfolding rows' a s using False by simp
      qed
    qed
  qed
qed


lemma last_with_key_Cons:
  "last_with_key k (x # xs) =
     (case last_with_key k xs of
        None \<Rightarrow> if DatasetID x = k then Some x else None
      | Some i \<Rightarrow> Some i)"
  by (simp add: last_with_key_def find_snoc)

lemma upsert_items_key:
  assumes "\<forall>n. \<not> db_fail w n" and "table_ok (osdr_items w)"
    and "\<forall>x\<in>set items. item_ID x = 0" and "k \<noteq> []"
  shows "fst (upsert_items w items) = None
    \<and> table_ok (osdr_items (snd (upsert_items w items)))
    \<and> (case last_with_key k items of
          None \<Rightarrow>
            find (\<lambda>r. DatasetID r = k) (osdr_items (snd (upsert_items w items)))
              = find (\<lambda>r. DatasetID r = k) (osdr_items w)
        | Some i \<Rightarrow>
            (\<exists>r. find (\<lambda>r. DatasetID r = k) (osdr_items (snd (upsert_items w items))) = Some r
               \<and> stored_as r i
               \<and> (\<forall>ex. find (\<lambda>r. DatasetID r = k) (osdr_items w) = Some ex \<longrightarrow>
                      item_ID r = item_ID ex \<and> item_CreatedAt r = item_CreatedAt ex
                      \<and> item_UpdatedAt r = Some (clock w))))"
  using assms
proof (induction items arbitrary: w)
  case Nil
  then show ?case by (simp add: last_with_key_def)
next
  case (Cons x xs)
  show ?case
  proof (cases "DatasetID x = []")
    case True
    have "\<forall>x\<in>set xs. item_ID x = 0" using Cons.prems(3) by simp
    from Cons.IH [OF Cons.prems(1,2) this Cons.prems(4)] True Cons.prems(4)
    show ?thesis
      by (auto simp: last_with_key_Cons split: option.splits)
  next
    case False
    let ?w' = "upsert_one w x"
    have x0: "item_ID x = 0" and xs0: "\<forall>x\<in>set xs. item_ID x = 0"
      using Cons.prems(3) by simp_all
    have step: "upsert_items w (x # xs) = upsert_items ?w' xs"
      using Cons.prems(1,2) x0 False by (rule upsert_items_step)
    have h': "\<forall>n. \<not> db_fail ?w' n"
      using Cons.prems(1) by (simp add: upsert_one_frame)
    have ok': "table_ok (osdr_items ?w')"
      using Cons.prems(2) x0 by (rule upsert_one_rows(1))
    note f = upsert_one_rows(2) [OF Cons.prems(2) x0, of k]
    note IH = Cons.IH [OF h' ok' xs0 Cons.prems(4)]
    show ?thesis
    proof (cases "last_with_key k xs")
      case None
      with IH have same: "find (\<lambda>r. DatasetID r = k) (osdr_items (snd (upsert_items ?w' xs)))
          = find (\<lambda>r. DatasetID r = k) (osdr_items ?w')"
        and fin: "fst (upsert_items ?w' xs) = None"
                 "table_ok (osdr_items (snd (upsert_items ?w' xs)))"
        by simp_all
      show ?thesis
        unfolding step using None fin
        by (auto simp: last_with_key_Cons same f stored_as_def split: option.splits)
    next
      case (Some i)
      with IH obtain r where
        r: "find (\<lambda>r. DatasetID r = k) (osdr_items (snd (upsert_items ?w' xs))) = Some r"
           "stored_as r i"
           "\<And>ex. find (\<lambda>r. DatasetID r = k) (osdr_items ?w') = Some ex \<Longrightarrow>
              item_ID r = item_ID ex \<and> item_CreatedAt r = item_CreatedAt ex
              \<and> item_UpdatedAt r = Some (clock w)"
        and fin: "fst (upsert_items ?w' xs) = None"
                 "table_ok (osdr_items (snd (upsert_items ?w' xs)))"
        by (auto simp: upsert_one_frame)
      have "item_ID r = item_ID ex \<and> item_CreatedAt r = item_CreatedAt ex
            \<and> item_UpdatedAt r = Some (clock w)"
        if "find (\<lambda>r. DatasetID r = k) (osdr_items w) = Some ex" for ex
        using r(3) [unfolded f] that by (cases "k = DatasetID x") simp_all
      then show ?thesis
        unfolding step using Some fin r(1,2)
        by (simp add: last_with_key_Cons)
    qed
  qed
qed

lemma find_key_filter:
  "distinct (map f rows) \<Longrightarrow> find (\<lambda>r. f r = k) rows = Some r \<Longrightarrow>
   filter (\<lambda>r. f r = k) rows = [r]"
proof (induction rows)
  case Nil
  then show ?case by simp
next
  case (Cons a rows)
  show ?case
  proof (cases "f a = k")
    case True
    with Cons.prems have "a = r" and "k \<notin> f ` set rows" by auto
    then have "filter (\<lambda>r. f r = k) rows = []"
      by (auto simp: filter_empty_conv)
    with True \<open>a = r\<close> show ?thesis by simp
  next
    case False
    with Cons show ?thesis by simp
  qed
qed

lemma BulkUpsert_commit:
  assumes "\<forall>n. \<not> db_fail w n"
    and "fst (upsert_items (w\<lparr>db_ops := Suc (db_ops w)\<rparr>) items) = None"
  shows "fst (BulkUpsert w items) = None"
    and "osdr_items (snd (BulkUpsert w items))
           = osdr_items (snd (upsert_items (w\<lparr>db_ops := Suc (db_ops w)\<rparr>) items))"
proof -
  let ?w0 = "w\<lparr>db_ops := Suc (db_ops w)\<rparr>"
  have "db_fail (snd (upsert_items ?w0 items)) = db_fail ?w0"
    using db_only_fields(6) [OF upsert_items_db_only] .
  then have nf: "\<not> db_fail (snd (upsert_items ?w0 items)) n" for n
    using assms(1) by simp
  show "fst (BulkUpsert w items) = None"
    and "osdr_items (snd (BulkUpsert w items)) = osdr_items (snd (upsert_items ?w0 items))"
    using assms nf unfolding BulkUpsert_def Let_def
    by (simp_all add: case_prod_beta)
qed

lemma BulkUpsert_key:
  assumes "\<forall>n. \<not> db_fail w n" and "table_ok (osdr_items w)"
    and "\<forall>x\<in>set items. item_ID x = 0" and "k \<noteq> []" and "last_with_key k items = Some i"
  shows "fst (BulkUpsert w items) = None"
    and "table_ok (osdr_items (snd (BulkUpsert w items)))"
    and "\<exists>r. rows_under k (snd (BulkUpsert w items)) = [r] \<and> stored_as r i
           \<and> (\<forall>ex. rows_under k w = [ex] \<longrightarrow>
                  item_ID r = item_ID ex \<and> item_CreatedAt r = item_CreatedAt ex
                  \<and> item_UpdatedAt r = Some (clock w))"
proof -
  let ?w0 = "w\<lparr>db_ops := Suc (db_ops w)\<rparr>"
  have h0: "\<forall>n. \<not> db_fail ?w0 n" and ok0: "table_ok (osdr_items ?w0)"
    using assms(1,2) by simp_all
  note u = upsert_items_key [OF h0 ok0 assms(3,4)]
  from u have n: "fst (upsert_items ?w0 items) = None" by simp
  note b = BulkUpsert_commit [OF assms(1) n]
  show "fst (BulkUpsert w items) = None" by (rule b(1))
  show ok': "table_ok (osdr_items (snd (BulkUpsert w items)))" using u by (simp add: b(2))
  from u assms(5) obtain r where
    r: "find (\<lambda>r. DatasetID r = k) (osdr_items (snd (upsert_items ?w0 items))) = Some r"
       "stored_as r i"
       "\<And>ex. find (\<lambda>r. DatasetID r = k) (osdr_items w) = Some ex \<Longrightarrow>
          item_ID r = item_ID ex \<and> item_CreatedAt r = item_CreatedAt ex
          \<and> item_UpdatedAt r = Some (clock w)"
    by auto
  have dk: "distinct (map DatasetID (osdr_items w))"
    and dk': "distinct (map DatasetID (osdr_items (snd (upsert_items ?w0 items))))"
    using assms(2) ok' by (simp_all add: table_ok_def b(2))
  have "item_ID r = item_ID ex \<and> item_CreatedAt r = item_CreatedAt ex
        \<and> item_UpdatedAt r = Some (clock w)"
    if "rows_under k w = [ex]" for ex
  proof -
    from that have "ex \<in> set (filter (\<lambda>r. DatasetID r = k) (osdr_items w))"
      by (simp add: rows_under_def)
    then have "ex \<in> set (osdr_items w) \<and> DatasetID ex = k"
      by simp
    then have "find (\<lambda>r. DatasetID r = k) (osdr_items w) = Some ex"
      using find_key_iff [OF dk, of k ex] by simp
    then show ?thesis by (rule r(3))
  qed
  then show "\<exists>r. rows_under k (snd (BulkUpsert w items)) = [r] \<and> stored_as r i
           \<and> (\<forall>ex. rows_under k w = [ex] \<longrightarrow>
                  item_ID r = item_ID ex \<and> item_CreatedAt r = item_CreatedAt ex
                  \<and> item_UpdatedAt r = Some (clock w))"
    using find_key_filter [OF dk' r(1)] r(2) by (auto simp: b(2) rows_under_def)
qed







text \<open>
  C4. Two batch upserts that carry the same natural key leave one row under the key: it
  has the primary key and the creation time the row had after the first call, and the
  title, status and raw payload of the second call's record. The updated-time of the
  second call's record is not applied: the row's updated-time is the time of the second
  call, whatever the record carries.
\<close>

theorem second_upsert_stores_time_of_call:
  assumes "\<forall>n. \<not> db_fail w n" and "table_ok (osdr_items w)"
    and "\<forall>i\<in>set batch1. item_ID i = 0" and "\<forall>i\<in>set batch2. item_ID i = 0"
    and "k \<noteq> []"
    and "last_with_key k batch1 = Some i1" and "last_with_key k batch2 = Some i2"
    and "BulkUpsert w batch1 = (e1, w1)" and "BulkUpsert (advance dt w1) batch2 = (e2, w2)"
  shows "e1 = None \<and> e2 = None
    \<and> (\<exists>r1 r2. rows_under k w1 = [r1] \<and> rows_under k w2 = [r2]
          \<and> item_ID r2 = item_ID r1 \<and> item_CreatedAt r2 = item_CreatedAt r1
          \<and> stored_as r1 i1 \<and> stored_as r2 i2
          \<and> item_UpdatedAt r2 = Some (clock w + dt))"
proof -
  have w1: "w1 = snd (BulkUpsert w batch1)" and e1: "e1 = fst (BulkUpsert w batch1)"
    using assms(8) by simp_all
  let ?w1' = "advance dt w1"
  have w2: "w2 = snd (BulkUpsert ?w1' batch2)" and e2: "e2 = fst (BulkUpsert ?w1' batch2)"
    using assms(9) by simp_all
  note first = BulkUpsert_key [OF assms(1,2,3,5,6)]
  have "db_fail w1 = db_fail w" and c1: "clock w1 = clock w"
    unfolding w1 using db_only_fields(6,2) [OF BulkUpsert_db_only] by blast+
  then have h': "\<forall>n. \<not> db_fail ?w1' n" and c1': "clock ?w1' = clock w + dt"
    using assms(1) by (simp_all add: advance_def)
  have ok': "table_ok (osdr_items ?w1')"
    using first(2) by (simp add: advance_def w1)
  note second = BulkUpsert_key [OF h' ok' assms(4,5,7)]
  from first(3) obtain r1 where r1: "rows_under k w1 = [r1]" "stored_as r1 i1"
    unfolding w1 by blast
  have r1': "rows_under k ?w1' = [r1]"
    using r1(1) by (simp add: rows_under_def advance_def)
  from second(3) r1' obtain r2 where "rows_under k w2 = [r2]" "stored_as r2 i2"
    "item_ID r2 = item_ID r1" "item_CreatedAt r2 = item_CreatedAt r1"
    "item_UpdatedAt r2 = Some (clock w + dt)"
    unfolding w2 c1' by blast
  with r1 first(1) second(1) show ?thesis
    unfolding e1 e2 by blast
qed

text \<open>
  C4, at concrete batches: the second call, a minute after the first, carries the first
  call's key with another title, status, payload and the updated-time 700 s. The row has
  the second title and status, and the updated-time 1060 s, the time of the second call.
\<close>

theorem second_upsert_stores_time_of_call_witness:
  "(\<forall>n. \<not> db_fail example_world n)
   \<and> table_ok (osdr_items example_world)
   \<and> item_ID mice_record = 0 \<and> item_ID plants_record = 0 \<and> item_ID mice_record_v2 = 0
   \<and> last_with_key ''OSD-1'' [mice_record, plants_record] = Some mice_record
   \<and> last_with_key ''OSD-1'' [mice_record_v2] = Some mice_record_v2
   \<and> item_UpdatedAt mice_record_v2 = Some (700 * second)
   \<and> (\<exists>r1 r2.
        rows_under ''OSD-1'' (snd (BulkUpsert example_world [mice_record, plants_record])) = [r1]
        \<and> rows_under ''OSD-1''
            (snd (BulkUpsert
                   (advance (60 * second)
                      (snd (BulkUpsert example_world [mice_record, plants_record])))
                   [mice_record_v2])) = [r2]
        \<and> item_ID r2 = item_ID r1 \<and> item_CreatedAt r2 = item_CreatedAt r1
        \<and> Title r1 = ''Mice'' \<and> Title r2 = ''Mice, second flight'' \<and> Status r2 = ''closed''
        \<and> item_UpdatedAt r2 = Some (1060 * second))"
proof -
  let ?b1 = "[mice_record, plants_record]"
  let ?b2 = "[mice_record_v2]"
  let ?w1 = "snd (BulkUpsert example_world ?b1)"
  let ?w2 = "snd (BulkUpsert (advance (60 * second) ?w1) ?b2)"
  have h1: "\<forall>n. \<not> db_fail example_world n" and h2: "table_ok (osdr_items example_world)"
    by (simp_all add: example_world_def table_ok_def)
  have z: "item_ID mice_record = 0" "item_ID plants_record = 0" "item_ID mice_record_v2 = 0"
    by (simp_all add: mice_record_def plants_record_def mice_record_v2_def)
  have h3: "\<forall>i\<in>set ?b1. item_ID i = 0" and h4: "\<forall>i\<in>set ?b2. item_ID i = 0"
    using z by simp_all
  have h5: "''OSD-1'' \<noteq> []" by simp
  have l1: "last_with_key ''OSD-1'' ?b1 = Some mice_record"
    and l2: "last_with_key ''OSD-1'' ?b2 = Some mice_record_v2"
    by (simp_all add: last_with_key_def mice_record_def plants_record_def mice_record_v2_def)
  have u: "item_UpdatedAt mice_record_v2 = Some (700 * second)"
    by (simp add: mice_record_v2_def)
  have c: "clock example_world + 60 * second = 1060 * second"
    by (simp add: example_world_def)
  have p1: "BulkUpsert example_world ?b1 = (fst (BulkUpsert example_world ?b1), ?w1)"
    and p2: "BulkUpsert (advance (60 * second) ?w1) ?b2
               = (fst (BulkUpsert (advance (60 * second) ?w1) ?b2), ?w2)"
    by simp_all
  from second_upsert_stores_time_of_call [OF h1 h2 h3 h4 h5 l1 l2 p1 p2]
  obtain r1 r2 where "rows_under ''OSD-1'' ?w1 = [r1]" "rows_under ''OSD-1'' ?w2 = [r2]"
    "item_ID r2 = item_ID r1" "item_CreatedAt r2 = item_CreatedAt r1"
    "stored_as r1 mice_record" "stored_as r2 mice_record_v2"
    "item_UpdatedAt r2 = Some (1060 * second)"
    unfolding c by blast
  then have "\<exists>r1 r2. rows_under ''OSD-1'' ?w1 = [r1] \<and> rows_under ''OSD-1'' ?w2 = [r2]
        \<and> item_ID r2 = item_ID r1 \<and> item_CreatedAt r2 = item_CreatedAt r1
        \<and> Title r1 = ''Mice'' \<and> Title r2 = ''Mice, second flight'' \<and> Status r2 = ''closed''
        \<and> item_UpdatedAt r2 = Some (1060 * second)"
    by (auto simp: stored_as_def mice_record_def mice_record_v2_def)
  with h1 h2 z l1 l2 u show ?thesis by blast
qed

section \<open>Trend with fewer than two samples, in the states the services reach\<close>

text \<open>
  Every operation of the services is a step that keeps the cached trends in line with the
  table of positions: only \<open>GetTrend\<close> writes a trend key, and only with two positions.
\<close>

lemma trend_step_ok: "trend_step w w' \<Longrightarrow> trend_cache_ok w \<Longrightarrow> trend_cache_ok w'"
  unfolding trend_step_def trend_cache_ok_def by (meson le_trans)

lemma trend_step_same:
  "kv w' = kv w \<Longrightarrow> iss_logs w' = iss_logs w \<Longrightarrow> trend_step w w'"
  by (simp add: trend_step_def)

lemma ts_GetLastPosition: "trend_step w (snd (GetLastPosition lb w))"
  unfolding GetLastPosition_def Let_def trend_step_def
  by (simp add: Get_eq GetLast_def Set_cache_def redis_set_eq Let_def case_prod_beta
        split: sum.splits option.splits list.splits)

lemma ts_GetTrend: "trend_step w (snd (GetTrend lb w limit0))"
proof -
  obtain lim where l: "itoa (if limit0 \<le> 0 then 240 else limit0) = lim"
    by simp
  have two: "2 \<le> length xs" if "take 2 (by_fetched_desc xs) = a # b # r" for xs a b r
  proof -
    have "length (take 2 (by_fetched_desc xs)) \<le> length xs" by (simp add: by_fetched_desc_def)
    with that show ?thesis by simp
  qed
  show ?thesis
    unfolding GetTrend_def Let_def l trend_step_def
    by (auto simp: GetJSON_eq GetLastN_def SetJSON_def redis_set_eq Let_def case_prod_beta
          dest: two split: sum.splits option.splits list.splits if_splits)
qed

lemma ts_GetPositionsHistory: "trend_step w (snd (GetPositionsHistory lb w hours0))"
proof -
  obtain hours where h: "(if hours0 \<le> 0 then 24 else hours0) = hours" by simp
  obtain t where k: "itoa hours @ ''h'' = t" by simp
  show ?thesis
    unfolding GetPositionsHistory_def Let_def h trend_step_def
    by (simp add: k GetJSON_eq GetSince_def SetJSON_def redis_set_eq Let_def case_prod_beta
          split: sum.splits option.splits)
qed


lemma ts_GetOSDRList: "trend_step w (snd (GetOSDRList lb w page0 limit0))"
proof -
  obtain page where p: "(if page0 < 1 then 1 else page0) = page" by simp
  obtain limit where l: "(if limit0 < 1 \<or> limit0 > 100 then 20 else limit0) = limit" by simp
  obtain t where k: "itoa page @ '':'' @ itoa limit = t" by simp
  show ?thesis
    unfolding GetOSDRList_def Let_def p l trend_step_def
    by (simp add: k GetJSON_eq GetPaginated_def SetJSON_def redis_set_eq Let_def case_prod_beta
          split: sum.splits option.splits)
qed

lemma ts_FetchAndStoreAPOD: "trend_step w (snd (FetchAndStoreAPOD w))"
  unfolding FetchAndStoreAPOD_def Let_def trend_step_def
  by (simp add: FetchAPOD_def upstream_doc_def SetJSON_def redis_set_eq case_prod_beta
        split: sum.splits option.splits)

lemma ts_FetchAndStoreNEO: "trend_step w (snd (FetchAndStoreNEO w))"
  unfolding FetchAndStoreNEO_def Let_def trend_step_def
  by (simp add: FetchNEOFeed_def upstream_doc_def SetJSON_def redis_set_eq case_prod_beta
        split: sum.splits option.splits)

lemma trend_step_trans: "trend_step a b \<Longrightarrow> trend_step b c \<Longrightarrow> trend_step a c"
  unfolding trend_step_def by (meson le_trans)

lemma ts_GetLatestAPOD: "trend_step w (snd (GetLatestAPOD lb w))"
proof -
  let ?w1 = "w\<lparr>cache_ops := Suc (cache_ops w)\<rparr>"
  let ?w2 = "snd (FetchAndStoreAPOD ?w1)"
  have a: "trend_step w ?w1" by (simp add: trend_step_same)
  have b: "trend_step w ?w2" using trend_step_trans [OF a ts_FetchAndStoreAPOD] .
  have "trend_step ?w2 (?w2\<lparr>cache_ops := Suc (cache_ops ?w2)\<rparr>)"
    by (simp add: trend_step_same)
  then have c: "trend_step w (?w2\<lparr>cache_ops := Suc (cache_ops ?w2)\<rparr>)"
    using trend_step_trans [OF b] by blast
  show ?thesis
    unfolding GetLatestAPOD_def Let_def
    using a b c by (simp add: case_prod_beta split: sum.splits option.splits)
qed

lemma ts_GetLatestNEO: "trend_step w (snd (GetLatestNEO lb w days0))"
proof -
  obtain key where k: "''nasa:neo:'' @ itoa (if days0 < 1 \<or> days0 > 30 then 7 else days0) @ ''d'' = key"
    by simp
  let ?w1 = "w\<lparr>cache_ops := Suc (cache_ops w)\<rparr>"
  let ?w2 = "snd (FetchAndStoreNEO ?w1)"
  have a: "trend_step w ?w1" by (simp add: trend_step_same)
  have b: "trend_step w ?w2" using trend_step_trans [OF a ts_FetchAndStoreNEO] .
  have "trend_step ?w2 (?w2\<lparr>cache_ops := Suc (cache_ops ?w2)\<rparr>)"
    by (simp add: trend_step_same)
  then have c: "trend_step w (?w2\<lparr>cache_ops := Suc (cache_ops ?w2)\<rparr>)"
    using trend_step_trans [OF b] by blast
  show ?thesis
    unfolding GetLatestNEO_def Let_def k
    using a b c by (simp add: case_prod_beta split: sum.splits option.splits)
qed

lemma ts_GetDONKI: "trend_step w (snd (GetDONKI lb w eventType days0))"
proof -
  obtain days where d: "(if days0 < 1 \<or> days0 > 30 then 5 else days0) = days" by simp
  obtain t where k: "eventType @ '':'' @ itoa days @ ''d'' = t" by simp
  show ?thesis
    unfolding GetDONKI_def Let_def d trend_step_def
    by (simp add: k GetJSON_eq FetchDONKI_def upstream_docs_def SetJSON_def redis_set_eq
          case_prod_beta split: sum.splits option.splits)
qed

lemma ts_FetchAndStoreISSData: "trend_step w (snd (FetchAndStoreISSData interval w))"
  unfolding FetchAndStoreISSData_def Let_def trend_step_def
  by (simp add: Get_eq GetCurrentPosition_def upstream_doc_def json_Marshal_def iss_Create_def
        Set_cache_def redis_set_eq Let_def case_prod_beta
        split: sum.splits option.splits)

lemma ts_db_only: "db_only w w' \<Longrightarrow> trend_step w w'"
  using db_only_fields(1,7) [of w w'] by (simp add: trend_step_same)

lemma ts_FetchAndStoreOSDR: "trend_step w (snd (FetchAndStoreOSDR lb w))"
proof -
  let ?w1 = "w\<lparr>cache_ops := Suc (cache_ops w)\<rparr>"
  let ?w2 = "?w1\<lparr>calls := calls ?w1 @ [CallOSDR]\<rparr>"
  have a: "trend_step w ?w1" and b: "trend_step w ?w2" by (simp_all add: trend_step_same)
  have c: "trend_step w (snd (BulkUpsert ?w2 xs))" for xs
    using trend_step_trans [OF b ts_db_only [OF BulkUpsert_db_only]] .
  have s: "trend_step u (snd (redis_set u ''nasa:osdr:last_fetch'' v ttl))" for u v ttl
    by (simp add: trend_step_def redis_set_eq)
  have d: "trend_step w (snd (redis_set (snd (BulkUpsert ?w2 xs)) ''nasa:osdr:last_fetch'' v ttl))"
    for xs v ttl
    using trend_step_trans [OF c s] .
  have e: "trend_step w (snd (redis_set ?w2 ''nasa:osdr:last_fetch'' v ttl))" for v ttl
    using trend_step_trans [OF b s] .
  show ?thesis
    unfolding FetchAndStoreOSDR_def Let_def
    using a b c d e
    by (simp add: Get_eq FetchOSDR_def upstream_docs_def Set_cache_def case_prod_beta
          split: sum.splits option.splits)
qed

lemma ts_serve_read: "trend_step w (serve_read lb r w)"
  by (cases r)
     (simp_all add: ts_GetLastPosition ts_GetTrend ts_GetPositionsHistory ts_GetOSDRList
        ts_GetLatestAPOD ts_GetLatestNEO ts_GetDONKI GetAPOD_def GetNEOWatch_def)

lemma ts_tick: "trend_step w (tick lb interval d w)"
  by (cases d)
     (simp_all add: tick_def ts_FetchAndStoreISSData ts_FetchAndStoreOSDR ts_FetchAndStoreAPOD
        ts_FetchAndStoreNEO)

lemma ts_ForceFetchISS: "trend_step w (snd (ForceFetchISS interval w))"
  using ts_FetchAndStoreISSData [of w interval]
  by (simp add: ForceFetchISS_def case_prod_beta split: option.splits)

lemma reachable_trend_cache_ok: "reachable lb w \<Longrightarrow> trend_cache_ok w"
proof (induction rule: reachable.induct)
  case (start w)
  then show ?case by (simp add: trend_cache_ok_def)
next
  case (read w r)
  then show ?case using trend_step_ok [OF ts_serve_read] by blast
next
  case (synchronize w interval d)
  then show ?case using trend_step_ok [OF ts_tick] by blast
next
  case (force w interval)
  then show ?case using trend_step_ok [OF ts_ForceFetchISS] by blast
next
  case (wait w dt)
  then show ?case by (simp add: trend_cache_ok_def advance_def)
qed

text \<open>
  C6. In every state the services reach, with fewer than two positions stored and the
  database answering, \<open>GetTrend\<close> returns the neutral trend (no movement, zero
  distance, every optional field absent) and no failure, whatever the key/value store
  does.
\<close>

theorem GetTrend_few_samples:
  assumes "reachable lb w" and "length (iss_logs w) < 2" and "\<not> db_fail w (db_ops w)"
  shows "fst (GetTrend lb w limit) = Inr zero_trend"
proof -
  obtain lim where l: "itoa (if limit \<le> 0 then 240 else limit) = lim"
    by simp
  have "kv w (''iss:trend:'' @ lim) \<noteq> None \<longrightarrow> 2 \<le> length (iss_logs w)"
    using reachable_trend_cache_ok [OF assms(1)] unfolding trend_cache_ok_def by blast
  with assms(2) have "\<not> kv w (''iss:trend:'' @ lim) \<noteq> None"
    by (meson not_less)
  then have "kv w (''iss:trend:'' @ lim) = None"
    by blast
  then have miss: "live w (''iss:trend:'' @ lim) = None"
    by (simp add: live_def)
  have short: "length (by_fetched_desc (iss_logs w)) < 2"
    using assms(2) by simp
  show ?thesis
    using miss assms(3) unfolding GetTrend_def Let_def l
    by (simp add: GetJSON_eq GetLastN_def Let_def few_positions [OF short] zero_trend_def)
qed

text \<open>
  C6, at two concrete worlds. With one position stored and the key/value store refusing
  the read, \<open>GetTrend\<close> reads the database and returns the neutral trend for the single
  row it gets. After the first synchronization tick, with the key/value store working,
  the answer is the neutral trend too.
\<close>

theorem GetTrend_few_samples_witness:
  "reachable example_lib one_sample_world
   \<and> length (iss_logs one_sample_world) = 1
   \<and> cache_fail one_sample_world (cache_ops one_sample_world)
   \<and> \<not> db_fail one_sample_world (db_ops one_sample_world)
   \<and> fst (GetTrend example_lib one_sample_world 240) = Inr zero_trend
   \<and> db_ops (snd (GetTrend example_lib one_sample_world 240)) = Suc (db_ops one_sample_world)
   \<and> reachable example_lib (tick example_lib (120 * second) ISS example_world)
   \<and> length (iss_logs (tick example_lib (120 * second) ISS example_world)) = 1
   \<and> fst (GetTrend example_lib (tick example_lib (120 * second) ISS example_world) 240)
       = Inr zero_trend"
proof -
  let ?w = "tick example_lib (120 * second) ISS example_world"
  have r1: "reachable example_lib one_sample_world"
    by (rule reachable.start) (simp add: one_sample_world_def example_world_def)
  have "reachable example_lib example_world"
    by (rule reachable.start) (simp add: example_world_def)
  then have r2: "reachable example_lib ?w"
    by (rule reachable.synchronize)
  have n1: "length (iss_logs one_sample_world) = 1"
    and c1: "cache_fail one_sample_world (cache_ops one_sample_world)"
    and d1: "\<not> db_fail one_sample_world (db_ops one_sample_world)"
    by (simp_all add: one_sample_world_def example_world_def)
  have n2: "length (iss_logs ?w) = 1" and d2: "\<not> db_fail ?w (db_ops ?w)"
    by (simp_all add: tick_def eval_defs)
  have o: "db_ops (snd (GetTrend example_lib one_sample_world 240))
             = Suc (db_ops one_sample_world)"
    by (simp add: GetTrend_def GetJSON_eq GetLastN_def by_fetched_desc_def Let_def
          one_sample_world_def example_world_def)
  have s1: "length (iss_logs one_sample_world) < 2" and s2: "length (iss_logs ?w) < 2"
    using n1 n2 by simp_all
  show ?thesis
    using GetTrend_few_samples [OF r1 s1 d1, of 240] GetTrend_few_samples [OF r2 s2 d2, of 240]
      r1 r2 n1 n2 c1 d1 o
    by simp
qed

text \<open>
  The database has to answer: with no position stored, and the key/value store and the
  database both refusing their operations, \<open>GetTrend\<close> returns the failure of the
  database read.
\<close>

lemma trend_fails_when_cache_and_database_fail:
  "length (iss_logs all_down_world) < 2
   \<and> fst (GetTrend example_lib all_down_world 240)
       = Inl (Wrap ''failed to get ISS positions'' ErrDB)"
  by (simp add: all_down_world_def GetTrend_def GetLastN_def eval_defs)

section \<open>The distance along a meridian\<close>

lemma sin_poly5: "(\<Sum>m<5. sin_coeff m * x ^ m) = x - x ^ 3 / 6" for x :: real
  by (simp add: sin_coeff_def lessThan_nat_numeral fact_numeral power3_eq_cube)

lemma sin_poly7: "(\<Sum>m<7. sin_coeff m * x ^ m) = x - x ^ 3 / 6 + x ^ 5 / 120" for x :: real
  by (simp add: sin_coeff_def lessThan_nat_numeral fact_numeral)

lemma sin_lower:
  fixes x :: real
  assumes "0 \<le> x"
  shows "x - x ^ 3 / 6 - x ^ 5 / 120 \<le> sin x"
proof -
  have "\<bar>sin x - (\<Sum>m<5. sin_coeff m * x ^ m)\<bar> \<le> inverse (fact 5) * \<bar>x\<bar> ^ 5"
    by (rule Maclaurin_sin_bound)
  moreover have "inverse (fact 5) * \<bar>x\<bar> ^ 5 = x ^ 5 / 120"
    using assms by (simp add: fact_numeral)
  ultimately have "\<bar>sin x - (x - x ^ 3 / 6)\<bar> \<le> x ^ 5 / 120"
    by (simp only: sin_poly5)
  then show ?thesis by linarith
qed

lemma sin_upper:
  fixes x :: real
  assumes "0 \<le> x"
  shows "sin x \<le> x - x ^ 3 / 6 + x ^ 5 / 120 + x ^ 7 / 5040"
proof -
  have "\<bar>sin x - (\<Sum>m<7. sin_coeff m * x ^ m)\<bar> \<le> inverse (fact 7) * \<bar>x\<bar> ^ 7"
    by (rule Maclaurin_sin_bound)
  moreover have "inverse (fact 7) * \<bar>x\<bar> ^ 7 = x ^ 7 / 5040"
    using assms by (simp add: fact_numeral)
  ultimately have "\<bar>sin x - (x - x ^ 3 / 6 + x ^ 5 / 120)\<bar> \<le> x ^ 7 / 5040"
    by (simp only: sin_poly7)
  then show ?thesis by linarith
qed

lemma pi_bounds: "312 / 100 \<le> pi \<and> pi \<le> 3165 / 1000"
proof -
  define x :: real where "x = pi / 6"
  have s: "sin x = 1 / 2" unfolding x_def by (rule sin_30)
  have x0: "0 \<le> x" and x1: "x \<le> 2 / 3"
    using pi_less_4 by (simp_all add: x_def)
  have x2a: "x ^ 2 \<le> 4 / 9"
    using power_mono [OF x1 x0, of 2] by (simp add: power2_eq_square)
  have p3: "x ^ 3 = x ^ 2 * x" and p5: "x ^ 5 = x ^ 2 * x ^ 2 * x"
    and p7: "x ^ 7 = x ^ 2 * x ^ 2 * x ^ 2 * x"
    by (simp_all add: power2_eq_square power3_eq_cube eval_nat_numeral)
  have lo: "x - x ^ 3 / 6 - x ^ 5 / 120 \<le> 1 / 2"
    using sin_lower [OF x0] s by simp
  \<comment> \<open>first round: \<open>x \<le> 0.55\<close>\<close>
  have "x ^ 3 \<le> 4 / 9 * x"
    unfolding p3 using mult_right_mono [OF x2a x0] by simp
  moreover have "x ^ 2 * x ^ 2 \<le> 4 / 9 * (4 / 9)"
    using mult_mono [OF x2a x2a] by simp
  then have "x ^ 5 \<le> 4 / 9 * (4 / 9) * x"
    unfolding p5 using mult_right_mono [OF _ x0] by blast
  ultimately have xa: "x \<le> 55 / 100"
    using lo by linarith
  \<comment> \<open>second round: \<open>x \<le> 3.165 / 6\<close>\<close>
  have x2b: "x ^ 2 \<le> 3025 / 10000"
    using power_mono [OF xa x0, of 2] by (simp add: power2_eq_square)
  have c3: "x ^ 3 \<le> 3025 / 10000 * x"
    unfolding p3 using mult_right_mono [OF x2b x0] by simp
  have x4b: "x ^ 2 * x ^ 2 \<le> 3025 / 10000 * (3025 / 10000)"
    using mult_mono [OF x2b x2b] by simp
  then have c5: "x ^ 5 \<le> 3025 / 10000 * (3025 / 10000) * x"
    unfolding p5 using mult_right_mono [OF _ x0] by blast
  have xb: "x \<le> 3165 / 6000"
    using lo c3 c5 by linarith
  \<comment> \<open>lower bound\<close>
  have up: "1 / 2 \<le> x - x ^ 3 / 6 + x ^ 5 / 120 + x ^ 7 / 5040"
    using sin_upper [OF x0] s by simp
  have xh: "1 / 2 \<le> x"
    using sin_x_le_x [OF x0] s by simp
  have x3h: "1 / 8 \<le> x ^ 3"
    using power_mono [OF xh, of 3] by (simp add: power3_eq_cube)
  have d5: "x ^ 5 \<le> 3025 / 10000 * x ^ 3"
  proof -
    have "x ^ 5 = x ^ 2 * x ^ 3" by (simp add: eval_nat_numeral)
    also have "\<dots> \<le> 3025 / 10000 * x ^ 3"
      using mult_right_mono [OF x2b, of "x ^ 3"] x0 by simp
    finally show ?thesis .
  qed
  have d7: "x ^ 7 \<le> 3025 / 10000 * (3025 / 10000) * x ^ 3"
  proof -
    have "x ^ 7 = (x ^ 2 * x ^ 2) * x ^ 3" by (simp add: eval_nat_numeral)
    also have "\<dots> \<le> 3025 / 10000 * (3025 / 10000) * x ^ 3"
      using mult_right_mono [OF x4b, of "x ^ 3"] x0 by simp
    finally show ?thesis .
  qed
  have xl: "312 / 600 \<le> x"
    using up d5 d7 x3h by linarith
  show ?thesis
    using xl xb by (simp add: x_def)
qed


lemma haversine_north:
  "haversineDistance lat lon (lat + 1) lon = 6371 * pi / 180"
proof -
  define t :: real where "t = pi / 360"
  have t: "0 < t" "t < pi / 2" by (simp_all add: t_def)
  have st: "0 < sin t" using t by (intro sin_gt_zero2)
  have ct: "0 < cos t" using t by (intro cos_gt_zero)
  have a: "hav_a lat lon (lat + 1) lon = (sin t)\<^sup>2"
    by (simp add: hav_a_def t_def power2_eq_square)
  have s1: "sqrt ((sin t)\<^sup>2) = sin t" using st by simp
  have "1 - (sin t)\<^sup>2 = (cos t)\<^sup>2" by (simp add: cos_squared_eq)
  then have s2: "sqrt (1 - (sin t)\<^sup>2) = cos t" using ct by simp
  have "Atan2 (sin t) (cos t) = arctan (tan t)"
    using ct by (simp add: Atan2_def tan_def)
  also have "\<dots> = t" using t by (intro arctan_tan) simp_all
  finally have "Atan2 (sin t) (cos t) = t" .
  then show ?thesis
    unfolding haversineDistance_hav_a a s1 s2 by (simp add: t_def)
qed

lemma haversine_one_degree:
  assumes "\<bar>lat2 - lat1\<bar> = 1"
  shows "haversineDistance lat1 lon lat2 lon = 6371 * pi / 180"
proof (cases "lat1 \<le> lat2")
  case True
  with assms have "lat2 = lat1 + 1" by simp
  then show ?thesis by (simp add: haversine_north)
next
  case False
  with assms have l: "lat1 = lat2 + 1" by simp
  have "haversineDistance lat1 lon lat2 lon = haversineDistance lat2 lon lat1 lon"
    unfolding haversineDistance_hav_a by (simp only: hav_a_sym [of lat1 lon lat2 lon])
  then show ?thesis by (simp add: l haversine_north)
qed

lemma haversine_one_degree_within_1_percent:
  assumes "\<bar>lat2 - lat1\<bar> = 1"
  shows "\<bar>haversineDistance lat1 lon lat2 lon - 111\<bar> \<le> 111 / 100"
proof -
  have "312 / 100 \<le> pi" and "pi \<le> 3165 / 1000" using pi_bounds by simp_all
  then have "\<bar>6371 * pi / 180 - 111\<bar> \<le> 111 / 100" by linarith
  then show ?thesis by (simp only: haversine_one_degree [OF assms])
qed

lemma haversine_same_point: "haversineDistance lat lon lat lon = 0"
  by (simp add: haversineDistance_hav_a hav_a_self Atan2_def)

section \<open>The trend and the way to it\<close>

lemma calculateTrend_distance:
  assumes "Payload current = Obj c" and "Payload previous = Obj p"
  shows "DeltaKm (calculateTrend lb current previous) =
           haversineDistance (extractFloat lb p ''latitude'') (extractFloat lb p ''longitude'')
             (extractFloat lb c ''latitude'') (extractFloat lb c ''longitude'')"
    and "Movement (calculateTrend lb current previous) =
           (1 / 10 < haversineDistance (extractFloat lb p ''latitude'') (extractFloat lb p ''longitude'')
             (extractFloat lb c ''latitude'') (extractFloat lb c ''longitude''))"
  using assms by (simp_all add: calculateTrend_def Let_def)

lemma GetTrend_cache_error:
  assumes "cache_fail w (cache_ops w)" and "\<not> db_fail w (db_ops w)"
    and "by_fetched_desc (iss_logs w) = current # previous # rest"
  shows "fst (GetTrend lb w limit) = Inr (calculateTrend lb current previous)"
proof -
  obtain key where k: "''iss:trend:'' @ itoa (if limit \<le> 0 then 240 else limit) = key"
    by simp
  show ?thesis
    using assms unfolding GetTrend_def Let_def k
    by (simp add: GetJSON_eq GetLastN_def SetJSON_def Let_def case_prod_beta)
qed

lemma GetTrend_cache_answers:
  assumes "\<not> cache_fail w (cache_ops w)"
    and "live w (''iss:trend:'' @ itoa (if limit \<le> 0 then 240 else limit)) = None"
  shows "fst (GetTrend lb w limit) = Inr zero_trend"
proof -
  obtain key where k: "''iss:trend:'' @ itoa (if limit \<le> 0 then 240 else limit) = key"
    by simp
  show ?thesis
    using assms unfolding GetTrend_def Let_def k
    by (simp add: GetJSON_eq)
qed

text \<open>
  C5. The code at an input where the claim fails: two positions stored one degree of
  latitude apart at the same longitude, the key/value store working and empty.
  \<open>GetTrend\<close> returns the zero trend, with a distance of 0. The trend of the two most recent
  positions, which \<open>GetTrend\<close> does not reach here, has the distance \<open>6371 \<pi> / 180\<close> km,
  within 1% of 111.
\<close>

theorem trend_of_one_degree_is_zero:
  "fst (GetTrend example_lib one_degree_world 240) = Inr zero_trend
   \<and> DeltaKm zero_trend = 0
   \<and> take 2 (by_fetched_desc (iss_logs one_degree_world)) =
       [iss_logs one_degree_world ! 1, iss_logs one_degree_world ! 0]
   \<and> DeltaKm (calculateTrend example_lib (iss_logs one_degree_world ! 1)
        (iss_logs one_degree_world ! 0)) = 6371 * pi / 180
   \<and> \<bar>6371 * pi / 180 - 111\<bar> \<le> 111 / 100"
proof -
  have d: "DeltaKm (calculateTrend example_lib (iss_logs one_degree_world ! 1)
        (iss_logs one_degree_world ! 0)) = haversineDistance 10 20 11 20"
    by (simp add: one_degree_world_def calculateTrend_distance extractFloat_def)
  have h: "haversineDistance 10 20 11 20 = 6371 * pi / 180"
    by (rule haversine_one_degree) simp
  have "\<bar>haversineDistance 10 20 11 20 - 111\<bar> \<le> 111 / 100"
    by (rule haversine_one_degree_within_1_percent) simp
  then have b: "\<bar>6371 * pi / 180 - 111\<bar> \<le> 111 / 100"
    by (simp only: h)
  have e: "fst (GetTrend example_lib one_degree_world 240) = Inr zero_trend
   \<and> DeltaKm zero_trend = 0
   \<and> take 2 (by_fetched_desc (iss_logs one_degree_world)) =
       [iss_logs one_degree_world ! 1, iss_logs one_degree_world ! 0]"
    by (simp add: one_degree_world_def GetTrend_def zero_trend_def by_fetched_desc_def eval_defs)
  show ?thesis
    using e d h b by simp
qed

end
